theory Spec2Isabelle
  imports Main "HOL-Library.Char_ord" "HOL-Library.List_Lexorder" "HOL-Library.Multiset"
begin

section \<open>Python values as the inspector observes them\<close>

text \<open>
  \<^verbatim>\<open>direct/src/tkpanels/Inspector.py\<close> is reflective code: it never looks inside an object
  except through \<^verbatim>\<open>type(o).__name__\<close>, \<^verbatim>\<open>dir(o)\<close>, \<^verbatim>\<open>getattr(o, name)\<close>,
  \<^verbatim>\<open>str(o)\<close>, \<^verbatim>\<open>repr(o)\<close>, \<^verbatim>\<open>callable(o)\<close>, truth value, iteration,
  \<^verbatim>\<open>len(o)\<close>, \<^verbatim>\<open>k in o\<close> and \<^verbatim>\<open>o[k]\<close>. An object is modelled by exactly these
  observations: a body (what kind of container it is, if any), its attribute table, what
  \<^verbatim>\<open>dir\<close> gives for it, its two string forms and whether it can be called.

  Exceptions are values of \<open>error\<close>; a computation that may raise returns
  \<open>error + 'a\<close> with \<open>Inl\<close> for the exception.
\<close>

datatype error =
  AttributeError | IndexError | KeyError | TypeError | NameError | SyntaxError | ZeroDivisionError

type_synonym 'a result = "error + 'a"

text \<open>
  Part identifiers and dictionary keys are Python ints, strings and float nans. A nan is
  a number that \<^verbatim>\<open><\<close> does not order: \<^verbatim>\<open>nan < x\<close> and \<^verbatim>\<open>x < nan\<close> are both false for
  every number \<^verbatim>\<open>x\<close>. A dictionary finds a nan key by the identity of the object, which
  the number in \<open>NanK\<close> stands for. (Other hashable keys, such as tuples, are outside the
  model.)
\<close>

datatype key = IntK int | StrK string | NanK nat

text \<open>
  \<open>Plain n\<close> is any object without container behaviour whose type is named \<open>n\<close>:
  a module (\<open>module\<close>), a class (\<open>type\<close>), a function (\<open>function\<close>), a bound
  method (\<open>method\<close>), a code object (\<open>code\<close>), a complex number (\<open>complex\<close>), a
  slice (\<open>slice\<close>), or an instance of a user-defined class (\<open>n\<close> is the class's name).
\<close>

datatype 'a body =
    Plain string
  | NoneB
  | IntB int
  | StrB string
  | ListB "'a list"
  | TupleB "'a list"
  | DictB "(key \<times> 'a) list"

text \<open>
  \<open>dir_of\<close> is the value of \<^verbatim>\<open>dir(o)\<close>: the list that the \<^verbatim>\<open>__dir__\<close> method of the
  object returns, which \<^verbatim>\<open>dir\<close> sorts, or the exception that the call raises. The names
  it lists need not be those of the attribute table: \<^verbatim>\<open>getattr\<close> can raise for a name
  that \<^verbatim>\<open>dir\<close> lists.
\<close>

datatype pyobj =
  Obj (body: "pyobj body") (attrs: "(string \<times> pyobj) list") (dir_of: "key list result")
      (str_of: string) (repr_of: string) (is_callable: bool)

text \<open>\<^verbatim>\<open>type(o).__name__\<close>\<close>

definition type_name :: "pyobj \<Rightarrow> string" where
  "type_name ob =
     (case body ob of
        Plain n \<Rightarrow> n
      | NoneB \<Rightarrow> ''NoneType''
      | IntB _ \<Rightarrow> ''int''
      | StrB _ \<Rightarrow> ''str''
      | ListB _ \<Rightarrow> ''list''
      | TupleB _ \<Rightarrow> ''tuple''
      | DictB _ \<Rightarrow> ''dict'')"

text \<open>
  \<^verbatim>\<open>getattr(o, name)\<close>. The first binding of a name in the table is the attribute. A name
  that is not a string raises TypeError.
\<close>

fun py_getattr :: "pyobj \<Rightarrow> key \<Rightarrow> pyobj result" where
  "py_getattr ob (StrK name) =
     (case map_of (attrs ob) name of None \<Rightarrow> Inl AttributeError | Some v \<Rightarrow> Inr v)"
| "py_getattr ob (IntK _) = Inl TypeError"
| "py_getattr ob (NanK _) = Inl TypeError"

text \<open>Python list indexing \<^verbatim>\<open>xs[j]\<close>: a negative index counts from the end.\<close>

definition py_index :: "'a list \<Rightarrow> int \<Rightarrow> 'a result" where
  "py_index xs j =
     (let n = int (length xs); k = (if j < 0 then n + j else j)
      in if 0 \<le> k \<and> k < n then Inr (xs ! nat k) else Inl IndexError)"

text \<open>
  Whether an object is the int or the string that a key denotes (\<^verbatim>\<open>==\<close> on atoms). The
  bodies of the model include no nan.
\<close>

fun is_key :: "key \<Rightarrow> pyobj \<Rightarrow> bool" where
  "is_key (IntK i) ob = (body ob = IntB i)"
| "is_key (StrK s) ob = (body ob = StrB s)"
| "is_key (NanK _) ob = False"

text \<open>Substring test, for \<^verbatim>\<open>s in t\<close> on strings.\<close>

fun is_substring :: "string \<Rightarrow> string \<Rightarrow> bool" where
  "is_substring s [] = (s = [])"
| "is_substring s (c # cs) = (take (length s) (c # cs) = s \<or> is_substring s cs)"

text \<open>\<^verbatim>\<open>k in o\<close>\<close>

definition py_contains :: "pyobj \<Rightarrow> key \<Rightarrow> bool result" where
  "py_contains ob k =
     (case body ob of
        DictB kvs \<Rightarrow> Inr (k \<in> set (map fst kvs))
      | ListB xs \<Rightarrow> Inr (list_ex (is_key k) xs)
      | TupleB xs \<Rightarrow> Inr (list_ex (is_key k) xs)
      | StrB t \<Rightarrow> (case k of StrK s \<Rightarrow> Inr (is_substring s t) | _ \<Rightarrow> Inl TypeError)
      | _ \<Rightarrow> Inl TypeError)"

text \<open>
  \<^verbatim>\<open>o[k]\<close>. Indexing a string gives the one-character string at that place, an object
  with the attribute table and the \<^verbatim>\<open>dir\<close> of the string it came from.
\<close>

definition py_getitem :: "pyobj \<Rightarrow> key \<Rightarrow> pyobj result" where
  "py_getitem ob k =
     (case body ob of
        DictB kvs \<Rightarrow> (case map_of kvs k of None \<Rightarrow> Inl KeyError | Some v \<Rightarrow> Inr v)
      | ListB xs \<Rightarrow> (case k of IntK j \<Rightarrow> py_index xs j | _ \<Rightarrow> Inl TypeError)
      | TupleB xs \<Rightarrow> (case k of IntK j \<Rightarrow> py_index xs j | _ \<Rightarrow> Inl TypeError)
      | StrB t \<Rightarrow>
          (case k of
             IntK j \<Rightarrow>
               (case py_index t j of
                  Inl e \<Rightarrow> Inl e
                | Inr c \<Rightarrow>
                    Inr (Obj (StrB [c]) (attrs ob) (dir_of ob) [c] ([CHR 0x27, c, CHR 0x27])
                           False))
           | _ \<Rightarrow> Inl TypeError)
      | _ \<Rightarrow> Inl TypeError)"

text \<open>\<^verbatim>\<open>len(o)\<close>\<close>

definition py_len :: "pyobj \<Rightarrow> nat result" where
  "py_len ob =
     (case body ob of
        DictB kvs \<Rightarrow> Inr (length (remdups (map fst kvs)))
      | ListB xs \<Rightarrow> Inr (length xs)
      | TupleB xs \<Rightarrow> Inr (length xs)
      | StrB t \<Rightarrow> Inr (length t)
      | _ \<Rightarrow> Inl TypeError)"

text \<open>
  The atoms among the elements of a sequence, as keys; \<open>None\<close> when an element is not
  an int or a string.
\<close>

fun as_key :: "pyobj \<Rightarrow> key option" where
  "as_key ob =
     (case body ob of IntB i \<Rightarrow> Some (IntK i) | StrB s \<Rightarrow> Some (StrK s) | _ \<Rightarrow> None)"

text \<open>
  What iterating an object yields, for \<^verbatim>\<open>sorted(o)\<close>: the keys of a dictionary, the
  characters of a string, the elements of a list or tuple. An object that is no container
  raises TypeError. Elements that are not ints or strings cannot be part identifiers of
  the model; a list or tuple holding one raises TypeError here, which is what sorting it
  with an int or a string beside it does in Python. (Only \<^verbatim>\<open>DictionaryInspector\<close>
  iterates its object, and the registry selects that class for the type names
  \<^verbatim>\<open>dict\<close> and \<^verbatim>\<open>dictionary\<close> only.)
\<close>

definition py_iter :: "pyobj \<Rightarrow> key list result" where
  "py_iter ob =
     (case body ob of
        DictB kvs \<Rightarrow> Inr (remdups (map fst kvs))
      | StrB t \<Rightarrow> Inr (map (\<lambda>c. StrK [c]) t)
      | ListB xs \<Rightarrow>
          (if list_all (\<lambda>x. as_key x \<noteq> None) xs then Inr (map (the \<circ> as_key) xs)
           else Inl TypeError)
      | TupleB xs \<Rightarrow>
          (if list_all (\<lambda>x. as_key x \<noteq> None) xs then Inr (map (the \<circ> as_key) xs)
           else Inl TypeError)
      | _ \<Rightarrow> Inl TypeError)"

text \<open>Truth value of an object, for \<^verbatim>\<open>if doc:\<close>.\<close>

definition py_truthy :: "pyobj \<Rightarrow> bool" where
  "py_truthy ob =
     (case body ob of
        Plain _ \<Rightarrow> True
      | NoneB \<Rightarrow> False
      | IntB i \<Rightarrow> i \<noteq> 0
      | StrB s \<Rightarrow> s \<noteq> []
      | ListB xs \<Rightarrow> xs \<noteq> []
      | TupleB xs \<Rightarrow> xs \<noteq> []
      | DictB kvs \<Rightarrow> kvs \<noteq> [])"

subsection \<open>Sorting with a comparison that can raise\<close>

text \<open>
  \<^verbatim>\<open>a < b\<close>. Strings compare lexicographically by character code, ints by value;
  comparing a string with a number raises TypeError; a comparison of two numbers one of
  which is a nan is false.
\<close>

fun py_lt :: "key \<Rightarrow> key \<Rightarrow> bool result" where
  "py_lt (IntK a) (IntK b) = Inr (a < b)"
| "py_lt (StrK a) (StrK b) = Inr (a < b)"
| "py_lt (StrK a) (IntK b) = Inl TypeError"
| "py_lt (StrK a) (NanK n) = Inl TypeError"
| "py_lt (IntK a) (StrK b) = Inl TypeError"
| "py_lt (NanK m) (StrK b) = Inl TypeError"
| "py_lt (IntK a) (NanK n) = Inr False"
| "py_lt (NanK m) (IntK b) = Inr False"
| "py_lt (NanK m) (NanK n) = Inr False"

text \<open>
  \<^verbatim>\<open>sorted(xs)\<close> as a stable insertion sort that uses only \<^verbatim>\<open><\<close>, as Python's sort
  does, and raises what a comparison raises. On ints and on strings the order is total,
  so every stable sort returns the same list; and every comparison sort of a list that
  holds a string and a number compares a string with a number at some point. Where
  \<^verbatim>\<open><\<close> does not order the elements, that is when a nan stands among numbers, the list
  that Python's sort returns depends on the merge strategy of the interpreter, except for
  a list in which no element is less than the one before it: every version returns such a
  list as it is, and so does the insertion sort. The properties proved below state
  nothing else about the order of a sorted list that holds a nan.
\<close>

fun py_insort :: "key \<Rightarrow> key list \<Rightarrow> key list result" where
  "py_insort x [] = Inr [x]"
| "py_insort x (y # ys) =
     (case py_lt y x of
        Inl e \<Rightarrow> Inl e
      | Inr lt \<Rightarrow>
          if lt then (case py_insort x ys of Inl e \<Rightarrow> Inl e | Inr zs \<Rightarrow> Inr (y # zs))
          else Inr (x # y # ys))"

fun py_sorted :: "key list \<Rightarrow> key list result" where
  "py_sorted [] = Inr []"
| "py_sorted (x # xs) = (case py_sorted xs of Inl e \<Rightarrow> Inl e | Inr ys \<Rightarrow> py_insort x ys)"

subsection \<open>String forms\<close>

text \<open>\<^verbatim>\<open>str(n)\<close> of an int: its decimal digits.\<close>

fun str_nat :: "nat \<Rightarrow> string" where
  "str_nat n =
     (if n < 10 then [''0123456789'' ! n]
      else str_nat (n div 10) @ [''0123456789'' ! (n mod 10)])"

declare str_nat.simps [simp del]

definition str_int :: "int \<Rightarrow> string" where
  "str_int i = (if i < 0 then CHR ''-'' # str_nat (nat (- i)) else str_nat (nat i))"

text \<open>\<^verbatim>\<open>str(each)\<close> of a part identifier.\<close>

fun str_key :: "key \<Rightarrow> string" where
  "str_key (IntK i) = str_int i"
| "str_key (StrK s) = s"
| "str_key (NanK _) = ''nan''"


definition lower_letters :: string where
  "lower_letters = ''abcdefghijklmnopqrstuvwxyz''"

definition upper_letters :: string where
  "upper_letters = ''ABCDEFGHIJKLMNOPQRSTUVWXYZ''"

definition upper_char :: "char \<Rightarrow> char" where
  "upper_char c = (case map_of (zip lower_letters upper_letters) c of Some u \<Rightarrow> u | None \<Rightarrow> c)"

definition lower_char :: "char \<Rightarrow> char" where
  "lower_char c = (case map_of (zip upper_letters lower_letters) c of Some l \<Rightarrow> l | None \<Rightarrow> c)"

fun capitalize :: "string \<Rightarrow> string" where
  "capitalize [] = []"
| "capitalize (c # cs) = upper_char c # map lower_char cs"

section \<open>The type registry\<close>

text \<open>The inspector classes of the module, which \<^verbatim>\<open>globals()[inspectorName]\<close> finds.\<close>

datatype variant =
    Inspector
  | ModuleInspector
  | ClassInspector
  | InstanceInspector
  | FunctionInspector
  | InstanceMethodInspector
  | CodeInspector
  | ComplexInspector
  | DictionaryInspector
  | SequenceInspector
  | SliceInspector

definition globals :: "string \<Rightarrow> variant option" where
  "globals = map_of
     [(''Inspector'', Inspector),
      (''ModuleInspector'', ModuleInspector),
      (''ClassInspector'', ClassInspector),
      (''InstanceInspector'', InstanceInspector),
      (''FunctionInspector'', FunctionInspector),
      (''InstanceMethodInspector'', InstanceMethodInspector),
      (''CodeInspector'', CodeInspector),
      (''ComplexInspector'', ComplexInspector),
      (''DictionaryInspector'', DictionaryInspector),
      (''SequenceInspector'', SequenceInspector),
      (''SliceInspector'', SliceInspector)]"

definition notFinishedTypes :: "string list" where
  "notFinishedTypes =
     [''BufferType'', ''EllipsisType'', ''FrameType'', ''TracebackType'', ''XRangeType'']"

text \<open>The dictionary literal of \<^verbatim>\<open>initializeInspectorMap\<close>, in the source's order.\<close>

definition inspectorMapLiteral :: "(string \<times> string) list" where
  "inspectorMapLiteral =
     [(''Builtin_function_or_methodType'', ''FunctionInspector''),
      (''BuiltinFunctionType'', ''FunctionInspector''),
      (''BuiltinMethodType'', ''FunctionInspector''),
      (''ClassType'', ''ClassInspector''),
      (''CodeType'', ''CodeInspector''),
      (''ComplexType'', ''Inspector''),
      (''DictionaryType'', ''DictionaryInspector''),
      (''DictType'', ''DictionaryInspector''),
      (''FileType'', ''Inspector''),
      (''FloatType'', ''Inspector''),
      (''FunctionType'', ''FunctionInspector''),
      (''Instance methodType'', ''InstanceMethodInspector''),
      (''InstanceType'', ''InstanceInspector''),
      (''IntType'', ''Inspector''),
      (''LambdaType'', ''Inspector''),
      (''ListType'', ''SequenceInspector''),
      (''LongType'', ''Inspector''),
      (''MethodType'', ''FunctionInspector''),
      (''ModuleType'', ''ModuleInspector''),
      (''NoneType'', ''Inspector''),
      (''SliceType'', ''SliceInspector''),
      (''StringType'', ''SequenceInspector''),
      (''TupleType'', ''SequenceInspector''),
      (''TypeType'', ''Inspector''),
      (''UnboundMethodType'', ''FunctionInspector'')]"

text \<open>
  \<^verbatim>\<open>initializeInspectorMap()\<close>: the literal, then an entry for each unfinished type.
  The module calls it once when it is loaded; its result is the global
  \<^verbatim>\<open>_InspectorMap\<close>.
\<close>

definition initializeInspectorMap :: "string \<rightharpoonup> string" where
  "initializeInspectorMap =
     fold (\<lambda>each m. m(each \<mapsto> ''Inspector'')) notFinishedTypes (map_of inspectorMapLiteral)"

section \<open>Inspectors\<close>

record inspector =
  variant :: variant
  object :: pyobj
  lastPartNumber :: int
  partsList :: "key list"
  partNames :: "string list"

text \<open>
  \<^verbatim>\<open>namedParts()\<close> of each class. The base class and \<^verbatim>\<open>InstanceInspector\<close> call
  \<^verbatim>\<open>dir(self.object)\<close>, which can raise. \<^verbatim>\<open>ClassInspector\<close> reads
  \<^verbatim>\<open>self.object.__dict__.keys()\<close>: an object without \<^verbatim>\<open>__dict__\<close>, or whose
  \<^verbatim>\<open>__dict__\<close> is no dictionary and so has no \<^verbatim>\<open>keys\<close>, raises AttributeError.
\<close>

definition namedParts :: "variant \<Rightarrow> pyobj \<Rightarrow> key list result" where
  "namedParts v ob =
     (case v of
        ModuleInspector \<Rightarrow> Inr [StrK ''__dict__'']
      | ClassInspector \<Rightarrow>
          (case py_getattr ob (StrK ''__dict__'') of
             Inl e \<Rightarrow> Inl e
           | Inr d \<Rightarrow>
               (case body d of
                  DictB kvs \<Rightarrow> Inr (StrK ''__bases__'' # remdups (map fst kvs))
                | _ \<Rightarrow> Inl AttributeError))
      | InstanceInspector \<Rightarrow>
          (case dir_of ob of Inl e \<Rightarrow> Inl e | Inr names \<Rightarrow> Inr (StrK ''__class__'' # names))
      | ComplexInspector \<Rightarrow> Inr [StrK ''real'', StrK ''imag'']
      | SliceInspector \<Rightarrow> Inr [StrK ''start'', StrK ''stop'', StrK ''step'']
      | _ \<Rightarrow> dir_of ob)"

text \<open>\<^verbatim>\<open>Inspector.initializePartsList\<close>: the named parts, sorted.\<close>

definition Inspector_initializePartsList :: "variant \<Rightarrow> pyobj \<Rightarrow> key list result" where
  "Inspector_initializePartsList v ob =
     (case namedParts v ob of Inl e \<Rightarrow> Inl e | Inr names \<Rightarrow> py_sorted names)"

text \<open>
  \<^verbatim>\<open>initializePartsList\<close> with the overrides of \<^verbatim>\<open>DictionaryInspector\<close> (the sorted
  keys are appended) and \<^verbatim>\<open>SequenceInspector\<close> (the indices \<^verbatim>\<open>range(len(o))\<close> are
  appended).
\<close>

definition initializePartsList :: "variant \<Rightarrow> pyobj \<Rightarrow> key list result" where
  "initializePartsList v ob =
     (case Inspector_initializePartsList v ob of
        Inl e \<Rightarrow> Inl e
      | Inr ps \<Rightarrow>
          (case v of
             DictionaryInspector \<Rightarrow>
               (case py_iter ob of
                  Inl e \<Rightarrow> Inl e
                | Inr ks \<Rightarrow> (case py_sorted ks of Inl e \<Rightarrow> Inl e | Inr sks \<Rightarrow> Inr (ps @ sks)))
           | SequenceInspector \<Rightarrow>
               (case py_len ob of
                  Inl e \<Rightarrow> Inl e
                | Inr n \<Rightarrow> Inr (ps @ map (\<lambda>i. IntK (int i)) [0..<n]))
           | _ \<Rightarrow> Inr ps))"

text \<open>\<^verbatim>\<open>initializePartNames\<close>\<close>

definition initializePartNames :: "key list \<Rightarrow> string list" where
  "initializePartNames ps = ''up'' # map str_key ps"

text \<open>\<^verbatim>\<open>Inspector.__init__\<close>, which every class inherits.\<close>

definition Inspector_init :: "variant \<Rightarrow> pyobj \<Rightarrow> inspector result" where
  "Inspector_init v ob =
     (case initializePartsList v ob of
        Inl e \<Rightarrow> Inl e
      | Inr ps \<Rightarrow>
          Inr \<lparr>variant = v, object = ob, lastPartNumber = 0,
               partsList = ps, partNames = initializePartNames ps\<rparr>)"

text \<open>
  \<^verbatim>\<open>inspectorFor(anObject)\<close>. The first component is what it prints on standard output.
\<close>

definition typeName_of :: "pyobj \<Rightarrow> string" where
  "typeName_of ob = capitalize (type_name ob) @ ''Type''"

definition inspectorFor :: "pyobj \<Rightarrow> string list \<times> inspector result" where
  "inspectorFor anObject =
     (let typeName = typeName_of anObject;
          (out, inspectorName) =
            (if typeName \<in> dom initializeInspectorMap
             then ([], the (initializeInspectorMap typeName))
             else ([''Can't find an inspector for '' @ typeName], ''Inspector''))
      in case globals inspectorName of
           None \<Rightarrow> (out, Inl KeyError)
         | Some cls \<Rightarrow> (out, Inspector_init cls anObject))"

text \<open>The class of the inspector that \<^verbatim>\<open>inspectorFor\<close> returns, or what it raises.\<close>

definition selected :: "pyobj \<Rightarrow> variant result" where
  "selected ob = (case snd (inspectorFor ob) of Inl e \<Rightarrow> Inl e | Inr i \<Rightarrow> Inr (variant i))"

text \<open>Whether a part identifier is an int, a string, a nan.\<close>

fun is_int_key :: "key \<Rightarrow> bool" where
  "is_int_key (IntK _) = True"
| "is_int_key (StrK _) = False"
| "is_int_key (NanK _) = False"

fun is_str_key :: "key \<Rightarrow> bool" where
  "is_str_key (IntK _) = False"
| "is_str_key (StrK _) = True"
| "is_str_key (NanK _) = False"


subsection \<open>Resolving a part\<close>

text \<open>\<^verbatim>\<open>privatePartNumber\<close>: \<^verbatim>\<open>self._partsList[partNumber - 1]\<close>\<close>

definition privatePartNumber :: "inspector \<Rightarrow> int \<Rightarrow> key result" where
  "privatePartNumber self partNumber = py_index (partsList self) (partNumber - 1)"

text \<open>
  \<^verbatim>\<open>partNumber\<close> assigns \<^verbatim>\<open>self.lastPartNumber\<close> and then resolves the part. The
  inspector is mutated in place, also when the resolution raises: the functions return the
  inspector after the call and, beside it, the part or the exception.
\<close>

definition Inspector_partNumber :: "inspector \<Rightarrow> int \<Rightarrow> inspector \<times> pyobj result" where
  "Inspector_partNumber self partNumber =
     (let self1 = self\<lparr>lastPartNumber := partNumber\<rparr>
      in if partNumber = 0 then (self1, Inr (object self1))
         else (case privatePartNumber self1 partNumber of
                 Inl e \<Rightarrow> (self1, Inl e)
               | Inr part \<Rightarrow> (self1, py_getattr (object self1) part)))"

definition DictionaryInspector_partNumber :: "inspector \<Rightarrow> int \<Rightarrow> inspector \<times> pyobj result" where
  "DictionaryInspector_partNumber self partNumber =
     (let self1 = self\<lparr>lastPartNumber := partNumber\<rparr>
      in if partNumber = 0 then (self1, Inr (object self1))
         else (case privatePartNumber self1 partNumber of
                 Inl e \<Rightarrow> (self1, Inl e)
               | Inr k \<Rightarrow>
                   (case py_contains (object self1) k of
                      Inl e \<Rightarrow> (self1, Inl e)
                    | Inr present \<Rightarrow>
                        if present then (self1, py_getitem (object self1) k)
                        else (self1, py_getattr (object self1) k))))"

definition SequenceInspector_partNumber :: "inspector \<Rightarrow> int \<Rightarrow> inspector \<times> pyobj result" where
  "SequenceInspector_partNumber self partNumber =
     (let self1 = self\<lparr>lastPartNumber := partNumber\<rparr>
      in if partNumber = 0 then (self1, Inr (object self1))
         else (case privatePartNumber self1 partNumber of
                 Inl e \<Rightarrow> (self1, Inl e)
               | Inr index \<Rightarrow>
                   if is_int_key index then (self1, py_getitem (object self1) index)
                   else (self1, py_getattr (object self1) index)))"

text \<open>The method that a call \<^verbatim>\<open>inspector.partNumber(n)\<close> reaches, by the inspector's class.\<close>

definition partNumber :: "inspector \<Rightarrow> int \<Rightarrow> inspector \<times> pyobj result" where
  "partNumber self n =
     (case variant self of
        DictionaryInspector \<Rightarrow> DictionaryInspector_partNumber self n
      | SequenceInspector \<Rightarrow> SequenceInspector_partNumber self n
      | _ \<Rightarrow> Inspector_partNumber self n)"

text \<open>\<^verbatim>\<open>selectedPart\<close>: \<^verbatim>\<open>self.partNumber(self.getLastPartNumber())\<close>\<close>

definition selectedPart :: "inspector \<Rightarrow> inspector \<times> pyobj result" where
  "selectedPart self = partNumber self (lastPartNumber self)"

text \<open>
  \<^verbatim>\<open>stringForPartNumber\<close>. \<^verbatim>\<open>getattr(object, '__doc__', None)\<close> gives \<^verbatim>\<open>None\<close> when
  the attribute is missing.
\<close>

definition stringForPartNumber :: "inspector \<Rightarrow> int \<Rightarrow> inspector \<times> string result" where
  "stringForPartNumber self n =
     (case partNumber self n of
        (self1, Inl e) \<Rightarrow> (self1, Inl e)
      | (self1, Inr ob) \<Rightarrow>
          (let doc = (if is_callable ob
                      then (case py_getattr ob (StrK ''__doc__'') of
                              Inl _ \<Rightarrow> None
                            | Inr d \<Rightarrow> Some d)
                      else None)
           in case doc of
                None \<Rightarrow> (self1, Inr (str_of ob))
              | Some d \<Rightarrow>
                  if py_truthy d then (self1, Inr (str_of ob @ [CHR 0x0A] @ str_of d))
                  else (self1, Inr (str_of ob))))"

text \<open>
  \<^verbatim>\<open>name + suffix\<close> where \<^verbatim>\<open>name\<close> is an attribute value: a value that is not a string
  raises TypeError.
\<close>

definition str_concat :: "pyobj \<Rightarrow> string \<Rightarrow> string result" where
  "str_concat ob suffix =
     (case body ob of StrB s \<Rightarrow> Inr (s @ suffix) | _ \<Rightarrow> Inl TypeError)"

text \<open>
  \<^verbatim>\<open>title()\<close> of each class. \<^verbatim>\<open>InstanceInspector.title\<close> returns
  \<^verbatim>\<open>self.object.__class__.__name__\<close> as it is; its only caller, \<^verbatim>\<open>setTitle\<close>,
  prepends a string to it, and the TypeError of a name that is not a string is raised
  there. The model raises it here.
\<close>

definition title :: "inspector \<Rightarrow> string result" where
  "title self =
     (case variant self of
        ClassInspector \<Rightarrow>
          (case py_getattr (object self) (StrK ''__name__'') of
             Inl e \<Rightarrow> Inl e
           | Inr n \<Rightarrow> str_concat n '' Class'')
      | InstanceInspector \<Rightarrow>
          (case py_getattr (object self) (StrK ''__class__'') of
             Inl e \<Rightarrow> Inl e
           | Inr c \<Rightarrow>
               (case py_getattr c (StrK ''__name__'') of
                  Inl e \<Rightarrow> Inl e
                | Inr n \<Rightarrow> str_concat n []))
      | FunctionInspector \<Rightarrow>
          (case py_getattr (object self) (StrK ''__name__'') of
             Inl e \<Rightarrow> Inl e
           | Inr n \<Rightarrow> str_concat n ''()'')
      | InstanceMethodInspector \<Rightarrow>
          (case py_getattr (object self) (StrK ''__self__'') of
             Inl e \<Rightarrow> Inl e
           | Inr s \<Rightarrow>
               (case py_getattr s (StrK ''__class__'') of
                  Inl e \<Rightarrow> Inl e
                | Inr c \<Rightarrow>
                    (case py_getattr (object self) (StrK ''__name__'') of
                       Inl e \<Rightarrow> Inl e
                     | Inr n \<Rightarrow>
                         (case str_concat n ''()'' of
                            Inl e \<Rightarrow> Inl e
                          | Inr t \<Rightarrow> Inr (str_of c @ ''.'' @ t)))))
      | CodeInspector \<Rightarrow> Inr (str_of (object self))
      | _ \<Rightarrow> Inr (capitalize (type_name (object self))))"

section \<open>The inspector window\<close>

text \<open>
  The widgets of the window, as far as the navigation reads and writes them. A Tk listbox
  holds its entries and the indices of the selected ones, in increasing order
  (\<^verbatim>\<open>curselection()\<close>); selecting an index outside the entries changes nothing.
  The active element, scrolling and keyboard focus are presentation and not modelled.
\<close>

record listbox =
  entries :: "string list"
  selection :: "int list"

text \<open>\<^verbatim>\<open>listWidget.delete(0, tk.END)\<close>\<close>

definition lb_delete_all :: "listbox \<Rightarrow> listbox" where
  "lb_delete_all lb = \<lparr>entries = [], selection = []\<rparr>"

text \<open>\<^verbatim>\<open>listWidget.insert(tk.END, each)\<close>\<close>

definition lb_insert_end :: "string \<Rightarrow> listbox \<Rightarrow> listbox" where
  "lb_insert_end each lb = lb\<lparr>entries := entries lb @ [each]\<rparr>"

text \<open>\<^verbatim>\<open>listWidget.select_clear(i)\<close>\<close>

definition lb_select_clear :: "int \<Rightarrow> listbox \<Rightarrow> listbox" where
  "lb_select_clear i lb = lb\<lparr>selection := filter (\<lambda>j. j \<noteq> i) (selection lb)\<rparr>"

text \<open>\<^verbatim>\<open>listWidget.select_set(i)\<close>\<close>

definition lb_select_set :: "int \<Rightarrow> listbox \<Rightarrow> listbox" where
  "lb_select_set i lb =
     (if 0 \<le> i \<and> i < int (length (entries lb))
      then lb\<lparr>selection := insort i (removeAll i (selection lb))\<rparr>
      else lb)"

text \<open>
  The window: the stack of inspectors, the title of the top-level window, the list of part
  names, the text pane that shows the selected part, and the text of the command pane
  (the insertion cursor is at its end).
\<close>

record window =
  inspectors :: "inspector list"
  top_title :: string
  listWidget :: listbox
  textWidget :: string
  commandWidget :: string

text \<open>
  \<^verbatim>\<open>InspectorWindow.__init__\<close>; the widgets are in the state in which
  \<^verbatim>\<open>createViews\<close> creates them.
\<close>

definition InspectorWindow_init :: "inspector \<Rightarrow> window" where
  "InspectorWindow_init inspector =
     \<lparr>inspectors = [inspector], top_title = [],
      listWidget = \<lparr>entries = [], selection = []\<rparr>,
      textWidget = [], commandWidget = ''>>> ''\<rparr>"

text \<open>\<^verbatim>\<open>topInspector\<close>: \<^verbatim>\<open>self.inspectors[len(self.inspectors) - 1]\<close>\<close>

definition topInspector :: "window \<Rightarrow> inspector result" where
  "topInspector w = py_index (inspectors w) (int (length (inspectors w)) - 1)"

text \<open>
  The top inspector is an object that its methods mutate in place; in the model the
  mutated inspector is written back to the top of the stack.
\<close>

definition storeTop :: "window \<Rightarrow> inspector \<Rightarrow> window" where
  "storeTop w i = w\<lparr>inspectors := (inspectors w)[length (inspectors w) - 1 := i]\<rparr>"

text \<open>\<^verbatim>\<open>setTitle\<close>: the title of the window is \<^verbatim>\<open>'Inspecting: ' + title\<close>.\<close>

definition window_title :: "string \<Rightarrow> string" where
  "window_title t = ''Inspecting: '' @ t"

definition setTitle :: "window \<Rightarrow> window \<times> unit result" where
  "setTitle w =
     (case topInspector w of
        Inl e \<Rightarrow> (w, Inl e)
      | Inr cur \<Rightarrow>
          (case title cur of
             Inl e \<Rightarrow> (w, Inl e)
           | Inr t \<Rightarrow> (w\<lparr>top_title := window_title t\<rparr>, Inr ())))"

text \<open>\<^verbatim>\<open>fillList\<close>\<close>

definition fillList :: "window \<Rightarrow> window \<times> unit result" where
  "fillList w =
     (let w1 = w\<lparr>listWidget := lb_delete_all (listWidget w)\<rparr>
      in case topInspector w1 of
           Inl e \<Rightarrow> (w1, Inl e)
         | Inr cur \<Rightarrow>
             (w1\<lparr>listWidget :=
                  lb_select_clear 0 (fold lb_insert_end (partNames cur) (listWidget w1))\<rparr>,
              Inr ()))"

text \<open>\<^verbatim>\<open>selectedIndex\<close>: the first selected index, or \<^verbatim>\<open>None\<close>.\<close>

definition selectedIndex :: "window \<Rightarrow> int option" where
  "selectedIndex w = (case selection (listWidget w) of [] \<Rightarrow> None | i # _ \<Rightarrow> Some i)"

text \<open>\<^verbatim>\<open>listSelectionChanged\<close>\<close>

definition listSelectionChanged :: "window \<Rightarrow> window \<times> unit result" where
  "listSelectionChanged w =
     (let n = (case selectedIndex w of None \<Rightarrow> 0 | Some i \<Rightarrow> i)
      in case topInspector w of
           Inl e \<Rightarrow> (w, Inl e)
         | Inr cur \<Rightarrow>
             (case stringForPartNumber cur n of
                (top1, Inl e) \<Rightarrow> (storeTop w top1, Inl e)
              | (top1, Inr s) \<Rightarrow> ((storeTop w top1)\<lparr>textWidget := s\<rparr>, Inr ())))"

text \<open>\<^verbatim>\<open>update\<close>\<close>

definition update :: "window \<Rightarrow> window \<times> unit result" where
  "update w =
     (case setTitle w of
        (w1, Inl e) \<Rightarrow> (w1, Inl e)
      | (w1, Inr _) \<Rightarrow>
          (case fillList w1 of
             (w2, Inl e) \<Rightarrow> (w2, Inl e)
           | (w2, Inr _) \<Rightarrow>
               (case topInspector w2 of
                  Inl e \<Rightarrow> (w2, Inl e)
                | Inr cur \<Rightarrow>
                    listSelectionChanged
                      (w2\<lparr>listWidget :=
                           lb_select_set (lastPartNumber cur)
                             (lb_select_clear 0 (listWidget w2))\<rparr>))))"

text \<open>\<^verbatim>\<open>open\<close>: the views are created, then \<^verbatim>\<open>update\<close>.\<close>

definition open_window :: "window \<Rightarrow> window \<times> unit result" where
  "open_window w =
     update (w\<lparr>top_title := [], listWidget := \<lparr>entries = [], selection = []\<rparr>,
               textWidget := [], commandWidget := ''>>> ''\<rparr>)"

text \<open>\<^verbatim>\<open>pop\<close>\<close>

definition pop :: "window \<Rightarrow> window \<times> unit result" where
  "pop w =
     (if length (inspectors w) > 1
      then update (w\<lparr>inspectors := butlast (inspectors w)\<rparr>)
      else (w, Inr ()))"

text \<open>
  \<^verbatim>\<open>inspectorForSelectedPart\<close>. The components are the window after the call, what was
  printed, and the inspector (or \<^verbatim>\<open>None\<close>, or the exception).
\<close>

definition inspectorForSelectedPart ::
  "window \<Rightarrow> window \<times> string list \<times> inspector option result" where
  "inspectorForSelectedPart w =
     (case selectedIndex w of
        None \<Rightarrow> (w, [], Inr None)
      | Some n \<Rightarrow>
          (case topInspector w of
             Inl e \<Rightarrow> (w, [], Inl e)
           | Inr cur \<Rightarrow>
               (case partNumber cur n of
                  (top1, Inl e) \<Rightarrow> (storeTop w top1, [], Inl e)
                | (top1, Inr part) \<Rightarrow>
                    (case topInspector (storeTop w top1) of
                       Inl e \<Rightarrow> (storeTop w top1, [], Inl e)
                     | Inr _ \<Rightarrow>
                         (case inspectorFor part of
                            (out, Inl e) \<Rightarrow> (storeTop w top1, out, Inl e)
                          | (out, Inr i) \<Rightarrow> (storeTop w top1, out, Inr (Some i)))))))"

text \<open>\<^verbatim>\<open>dive\<close>\<close>

definition dive :: "window \<Rightarrow> window \<times> string list \<times> unit result" where
  "dive w =
     (case inspectorForSelectedPart w of
        (w1, out, Inl e) \<Rightarrow> (w1, out, Inl e)
      | (w1, out, Inr None) \<Rightarrow> (w1, out, Inr ())
      | (w1, out, Inr (Some inspector)) \<Rightarrow>
          (case update (w1\<lparr>inspectors := inspectors w1 @ [inspector]\<rparr>) of
             (w2, r) \<Rightarrow> (w2, out, r)))"

text \<open>\<^verbatim>\<open>inspect\<close>: the last component is the window it opens, if any.\<close>

definition inspect :: "window \<Rightarrow> window \<times> string list \<times> window option result" where
  "inspect w =
     (case inspectorForSelectedPart w of
        (w1, out, Inl e) \<Rightarrow> (w1, out, Inl e)
      | (w1, out, Inr None) \<Rightarrow> (w1, out, Inr None)
      | (w1, out, Inr (Some inspector)) \<Rightarrow>
          (case open_window (InspectorWindow_init inspector) of
             (nw, Inl e) \<Rightarrow> (w1, out, Inl e)
           | (nw, Inr _) \<Rightarrow> (w1, out, Inr (Some nw))))"

text \<open>\<^verbatim>\<open>popOrDive\<close>\<close>

definition popOrDive :: "window \<Rightarrow> window \<times> string list \<times> unit result" where
  "popOrDive w =
     (if selectedIndex w = Some 0
      then (case pop w of (w1, r) \<Rightarrow> (w1, [], r))
      else dive w)"

text \<open>
  \<^verbatim>\<open>popupMenu\<close>, the handler of the right mouse button on the list. It resolves the
  selected part with \<^verbatim>\<open>partNumber\<close> and then looks for a menu to post; the menus are
  those of panda3d's \<^verbatim>\<open>NodePath\<close> and \<^verbatim>\<open>ClassicFSM\<close>, outside this module. What the
  handler changes of the window is what \<^verbatim>\<open>partNumber\<close> records; the function gives
  the window after the call.
\<close>

definition popupMenu :: "window \<Rightarrow> window" where
  "popupMenu w =
     (case selectedIndex w of
        None \<Rightarrow> w
      | Some n \<Rightarrow>
          (case topInspector w of
             Inl e \<Rightarrow> w
           | Inr cur \<Rightarrow> storeTop w (fst (partNumber cur n))))"

text \<open>
  The command line of \<^verbatim>\<open>evalCommand\<close>: the text after the last prompt before the
  cursor, up to the end of that line; \<open>None\<close> when the text holds no prompt.
\<close>

fun last_command :: "string \<Rightarrow> string option" where
  "last_command [] = None"
| "last_command (c # cs) =
     (case last_command cs of
        Some command \<Rightarrow> Some command
      | None \<Rightarrow>
          if take 4 (c # cs) = ''>>> ''
          then Some (takeWhile (\<lambda>x. x \<noteq> CHR 0x0A) (drop 4 (c # cs)))
          else None)"

text \<open>
  \<^verbatim>\<open>evalCommand\<close>. Python's \<^verbatim>\<open>eval\<close> is a parameter: \<open>ev command this object\<close> is
  the value of \<^verbatim>\<open>eval(command, {'this': this, 'object': object})\<close> or the exception it
  raises. (Code that mutates the inspected objects is outside the model.)
\<close>

definition evalCommand ::
  "(string \<Rightarrow> pyobj \<Rightarrow> pyobj \<Rightarrow> pyobj result) \<Rightarrow> window \<Rightarrow> window \<times> unit result" where
  "evalCommand ev w =
     (case last_command (commandWidget w) of
        None \<Rightarrow> (w, Inr ())
      | Some command \<Rightarrow>
          if command = [] then (w, Inr ())
          else
            (case topInspector w of
               Inl e \<Rightarrow> (w, Inl e)
             | Inr cur \<Rightarrow>
                 (case selectedPart cur of
                    (top1, Inl e) \<Rightarrow> (storeTop w top1, Inl e)
                  | (top1, Inr this) \<Rightarrow>
                      (case topInspector (storeTop w top1) of
                         Inl e \<Rightarrow> (storeTop w top1, Inl e)
                       | Inr top2 \<Rightarrow>
                           (case ev command this (object top2) of
                              Inl e \<Rightarrow> (storeTop w top1, Inl e)
                            | Inr r \<Rightarrow>
                                ((storeTop w top1)
                                   \<lparr>commandWidget :=
                                      commandWidget w @ repr_of r @ [CHR 0x0A] @ ''>>> ''\<rparr>,
                                 Inr ()))))))"

text \<open>\<^verbatim>\<open>inspect(anObject)\<close>, the entry point of the module: the window it opens.\<close>

definition inspect_object :: "pyobj \<Rightarrow> string list \<times> window result" where
  "inspect_object anObject =
     (case inspectorFor anObject of
        (out, Inl e) \<Rightarrow> (out, Inl e)
      | (out, Inr inspector) \<Rightarrow>
          (case open_window (InspectorWindow_init inspector) of
             (w, Inl e) \<Rightarrow> (out, Inl e)
           | (w, Inr _) \<Rightarrow> (out, Inr w)))"

text \<open>
  The user selects entry \<open>k\<close> of the list with the mouse or the arrow keys: Tk selects
  that entry alone (an index outside the list selects nothing new), and the handler bound
  to the release of the button or key, \<^verbatim>\<open>listSelectionChanged\<close>, runs.
\<close>

definition select_entry :: "int \<Rightarrow> window \<Rightarrow> window \<times> unit result" where
  "select_entry k w =
     listSelectionChanged
       (if 0 \<le> k \<and> k < int (length (entries (listWidget w)))
        then w\<lparr>listWidget := (listWidget w)\<lparr>selection := [k]\<rparr>\<rparr>
        else w)"

text \<open>
  Two stacks hold the same inspectors when they differ at most in the index that each
  inspector has recorded as last selected.
\<close>

definition forget_selected :: "inspector \<Rightarrow> inspector" where
  "forget_selected i = i\<lparr>lastPartNumber := 0\<rparr>"

definition same_inspectors :: "inspector list \<Rightarrow> inspector list \<Rightarrow> bool" where
  "same_inspectors xs ys \<longleftrightarrow> map forget_selected xs = map forget_selected ys"



text \<open>
  The states of a window. A window is on the screen once \<^verbatim>\<open>open\<close> has created its
  views; its first state is the one in which the first refresh leaves it, for
  \<^verbatim>\<open>inspect(anObject)\<close> or for the Inspect command of another window, also when that
  refresh raises. Every event then leads to a state, whether its handler returns or
  raises: the selection of an entry, a dive, a pop, the activation of an entry, the Inspect
  command, the pop-up menu and the evaluation of a command line. The user can also type
  in the command pane, and the list loses its selection when another widget takes the
  selection. (Between the press and the release of the button or key that selects an
  entry, the entry is selected and \<^verbatim>\<open>listSelectionChanged\<close> has not run yet; that
  moment is not among these states. \<open>displays\<close> describes it.)
\<close>

inductive reachable :: "window \<Rightarrow> bool" where
  opened: "inspectorFor anObject = (out, Inr inspector) \<Longrightarrow>
      open_window (InspectorWindow_init inspector) = (w, r) \<Longrightarrow> reachable w"
| selected: "reachable w \<Longrightarrow> select_entry k w = (w', r) \<Longrightarrow> reachable w'"
| dived: "reachable w \<Longrightarrow> dive w = (w', out, r) \<Longrightarrow> reachable w'"
| popped: "reachable w \<Longrightarrow> pop w = (w', r) \<Longrightarrow> reachable w'"
| activated: "reachable w \<Longrightarrow> popOrDive w = (w', out, r) \<Longrightarrow> reachable w'"
| inspected: "reachable w \<Longrightarrow> inspect w = (w', out, r) \<Longrightarrow> reachable w'"
| spawned: "reachable w \<Longrightarrow> inspectorForSelectedPart w = (w', out, Inr (Some inspector)) \<Longrightarrow>
      open_window (InspectorWindow_init inspector) = (nw, r) \<Longrightarrow> reachable nw"
| menu_posted: "reachable w \<Longrightarrow> reachable (popupMenu w)"
| evaluated: "reachable w \<Longrightarrow> evalCommand ev w = (w', r) \<Longrightarrow> reachable w'"
| typed: "reachable w \<Longrightarrow> reachable (w\<lparr>commandWidget := line\<rparr>)"
| deselected: "reachable w \<Longrightarrow>
      reachable (w\<lparr>listWidget := (listWidget w)\<lparr>selection := []\<rparr>\<rparr>)"

text \<open>\<^verbatim>\<open>title()\<close> of the inspector returns.\<close>

definition titled :: "inspector \<Rightarrow> bool" where
  "titled i \<longleftrightarrow> (case title i of Inl _ \<Rightarrow> False | Inr _ \<Rightarrow> True)"

text \<open>
  The inspector has recorded, as last selected, an index of its own list of part names.
\<close>

definition recorded_in_range :: "inspector \<Rightarrow> bool" where
  "recorded_in_range i \<longleftrightarrow>
     0 \<le> lastPartNumber i \<and> lastPartNumber i < int (length (partNames i))"

text \<open>
  An inspector whose title cannot be computed is never displayed: the refresh raises
  before it fills the list. Every other inspector of a stack has recorded an index of its
  own list.
\<close>

definition settled :: "inspector \<Rightarrow> bool" where
  "settled i \<longleftrightarrow> (if titled i then recorded_in_range i else True)"

text \<open>At most one entry of the list is selected, and it is an entry of the list.\<close>

definition selection_ok :: "listbox \<Rightarrow> bool" where
  "selection_ok lb \<longleftrightarrow>
     (case selection lb of
        [] \<Rightarrow> True
      | k # ks \<Rightarrow> ks = [] \<and> 0 \<le> k \<and> k < int (length (entries lb)))"

text \<open>
  The title and the list are those of the top inspector, unless its title cannot be
  computed.
\<close>

definition listed :: "window \<Rightarrow> bool" where
  "listed w \<longleftrightarrow>
     inspectors w \<noteq> []
     \<and> list_all settled (inspectors w)
     \<and> selection_ok (listWidget w)
     \<and> (case title (last (inspectors w)) of
          Inl _ \<Rightarrow> True
        | Inr t \<Rightarrow>
            top_title w = window_title t
            \<and> entries (listWidget w) = partNames (last (inspectors w)))"

text \<open>
  What holds in every state of a window. Moreover, when an entry is selected, the top
  inspector has recorded it, and the text pane shows that part if it can be resolved.
\<close>

definition coherent :: "window \<Rightarrow> bool" where
  "coherent w \<longleftrightarrow>
     listed w
     \<and> (case title (last (inspectors w)) of
          Inl _ \<Rightarrow> True
        | Inr t \<Rightarrow>
            (case selectedIndex w of
               None \<Rightarrow> True
             | Some k \<Rightarrow>
                 lastPartNumber (last (inspectors w)) = k
                 \<and> (case snd (stringForPartNumber (last (inspectors w)) k) of
                      Inl _ \<Rightarrow> True
                    | Inr s \<Rightarrow> textWidget w = s)))"

text \<open>The order in which a sorted list of part identifiers stands: \<^verbatim>\<open>a <= b\<close>.\<close>

fun key_le :: "key \<Rightarrow> key \<Rightarrow> bool" where
  "key_le (IntK a) (IntK b) = (a \<le> b)"
| "key_le (StrK a) (StrK b) = (a \<le> b)"
| "key_le _ _ = False"

text \<open>No element of the list is less than the one before it.\<close>

fun no_descent :: "key list \<Rightarrow> bool" where
  "no_descent (x # y # ys) = (py_lt y x = Inr False \<and> no_descent (y # ys))"
| "no_descent _ = True"

section \<open>Example objects\<close>

text \<open>
  Objects used to run the model. Their attribute tables and the lists that \<^verbatim>\<open>dir\<close>
  gives for them are abridged: a real Python object has many more attributes
  (\<^verbatim>\<open>__class__\<close>, \<^verbatim>\<open>__doc__\<close>, ...).
\<close>

definition py_int :: "int \<Rightarrow> pyobj" where
  "py_int n = Obj (IntB n) [] (Inr []) (str_int n) (str_int n) False"

definition py_str :: "string \<Rightarrow> pyobj" where
  "py_str s = Obj (StrB s) [] (Inr []) s ([CHR 0x27] @ s @ [CHR 0x27]) False"

definition py_float :: "string \<Rightarrow> pyobj" where
  "py_float shown = Obj (Plain ''float'') [] (Inr []) shown shown False"

definition py_builtin :: "string \<Rightarrow> pyobj" where
  "py_builtin shown =
     Obj (Plain ''builtin_function_or_method'') [] (Inr []) shown shown True"

text \<open>\<^verbatim>\<open>complex(1, 2)\<close>\<close>

definition ex_complex :: pyobj where
  "ex_complex =
     Obj (Plain ''complex'') [(''imag'', py_float ''2.0''), (''real'', py_float ''1.0'')]
       (Inr [StrK ''imag'', StrK ''real'']) ''(1+2j)'' ''(1+2j)'' False"

text \<open>\<^verbatim>\<open>class Foo: pass\<close> and \<^verbatim>\<open>Foo()\<close>\<close>

definition ex_class :: pyobj where
  "ex_class =
     Obj (Plain ''type'') [(''__name__'', py_str ''Foo'')] (Inr [StrK ''__name__''])
       ''<class '__main__.Foo'>'' ''<class '__main__.Foo'>'' True"

definition ex_instance :: pyobj where
  "ex_instance =
     Obj (Plain ''Foo'') [(''__class__'', ex_class)] (Inr [StrK ''__class__''])
       ''<__main__.Foo object>'' ''<__main__.Foo object>'' False"

text \<open>
  An instance of a class \<^verbatim>\<open>Weird\<close> whose \<^verbatim>\<open>__dir__\<close> method raises AttributeError.
\<close>

definition ex_weird :: pyobj where
  "ex_weird =
     Obj (Plain ''Weird'') [] (Inl AttributeError)
       ''<__main__.Weird object>'' ''<__main__.Weird object>'' False"

text \<open>\<^verbatim>\<open>{1: 'x', 'a': 'y'}\<close>, a dictionary with an int key and a string key.\<close>

definition ex_mixed_dict :: pyobj where
  "ex_mixed_dict =
     Obj (DictB [(IntK 1, py_str ''x''), (StrK ''a'', py_str ''y'')]) [] (Inr [])
       ''{1: 'x', 'a': 'y'}'' ''{1: 'x', 'a': 'y'}'' False"

text \<open>
  \<^verbatim>\<open>{2: 'a', float('nan'): 'b', 1: 'c'}\<close>, a dictionary with a nan between two int
  keys.
\<close>

definition ex_nan_dict :: pyobj where
  "ex_nan_dict =
     Obj (DictB [(IntK 2, py_str ''a''), (NanK 0, py_str ''b''), (IntK 1, py_str ''c'')])
       [] (Inr []) ''{2: 'a', nan: 'b', 1: 'c'}'' ''{2: 'a', nan: 'b', 1: 'c'}'' False"

text \<open>\<^verbatim>\<open>{'b': 2, 'a': 1}\<close>\<close>

definition ex_dict :: pyobj where
  "ex_dict =
     Obj (DictB [(StrK ''b'', py_int 2), (StrK ''a'', py_int 1)])
       [(''keys'', py_builtin ''<built-in method keys of dict object>'')]
       (Inr [StrK ''keys''])
       ''{'b': 2, 'a': 1}'' ''{'b': 2, 'a': 1}'' False"

text \<open>\<^verbatim>\<open>[10, 20, 30]\<close>\<close>

definition ex_list :: pyobj where
  "ex_list =
     Obj (ListB [py_int 10, py_int 20, py_int 30])
       [(''append'', py_builtin ''<built-in method append of list object>'')]
       (Inr [StrK ''append''])
       ''[10, 20, 30]'' ''[10, 20, 30]'' False"

text \<open>
  \<^verbatim>\<open>{'m': {1: 'x', 'a': 'y'}}\<close> and \<^verbatim>\<open>{'d': {'m': {1: 'x', 'a': 'y'}}}\<close>: the
  dictionary with an int key and a string key, two levels down.
\<close>

definition ex_nested :: pyobj where
  "ex_nested =
     Obj (DictB [(StrK ''m'', ex_mixed_dict)]) [] (Inr [])
       ''{'m': {1: 'x', 'a': 'y'}}'' ''{'m': {1: 'x', 'a': 'y'}}'' False"

definition ex_root :: pyobj where
  "ex_root =
     Obj (DictB [(StrK ''d'', ex_nested)]) [] (Inr [])
       ''{'d': {'m': {1: 'x', 'a': 'y'}}}'' ''{'d': {'m': {1: 'x', 'a': 'y'}}}'' False"

text \<open>The inspectors that \<^verbatim>\<open>inspectorFor\<close> returns for some of them.\<close>

definition ex_dict_inspector :: inspector where
  "ex_dict_inspector =
     \<lparr>variant = DictionaryInspector, object = ex_dict, lastPartNumber = 0,
      partsList = [StrK ''keys'', StrK ''a'', StrK ''b''],
      partNames = [''up'', ''keys'', ''a'', ''b'']\<rparr>"

definition ex_list_inspector :: inspector where
  "ex_list_inspector =
     \<lparr>variant = SequenceInspector, object = ex_list, lastPartNumber = 0,
      partsList = [StrK ''append'', IntK 0, IntK 1, IntK 2],
      partNames = [''up'', ''append'', ''0'', ''1'', ''2'']\<rparr>"

definition ex_complex_inspector :: inspector where
  "ex_complex_inspector =
     \<lparr>variant = Inspector, object = ex_complex, lastPartNumber = 0,
      partsList = [StrK ''imag'', StrK ''real''],
      partNames = [''up'', ''imag'', ''real'']\<rparr>"

definition ex_int_inspector :: inspector where
  "ex_int_inspector =
     \<lparr>variant = Inspector, object = py_int 1, lastPartNumber = 0,
      partsList = [], partNames = [''up'']\<rparr>"

definition ex_root_inspector :: inspector where
  "ex_root_inspector =
     \<lparr>variant = DictionaryInspector, object = ex_root, lastPartNumber = 0,
      partsList = [StrK ''d''], partNames = [''up'', ''d'']\<rparr>"

definition ex_nested_inspector :: inspector where
  "ex_nested_inspector =
     \<lparr>variant = DictionaryInspector, object = ex_nested, lastPartNumber = 0,
      partsList = [StrK ''m''], partNames = [''up'', ''m'']\<rparr>"

text \<open>
  The window that \<^verbatim>\<open>inspect({'b': 2, 'a': 1})\<close> opens; the same window after the user has
  selected the entry \<^verbatim>\<open>a\<close>; after a dive into that part; and the window that
  \<^verbatim>\<open>inspect\<close> spawns for that part.
\<close>

definition ex_opened :: window where
  "ex_opened =
     \<lparr>inspectors = [ex_dict_inspector], top_title = ''Inspecting: Dict'',
      listWidget = \<lparr>entries = [''up'', ''keys'', ''a'', ''b''], selection = [0]\<rparr>,
      textWidget = ''{'b': 2, 'a': 1}'', commandWidget = ''>>> ''\<rparr>"

definition ex_window :: window where
  "ex_window =
     \<lparr>inspectors = [ex_dict_inspector\<lparr>lastPartNumber := 2\<rparr>],
      top_title = ''Inspecting: Dict'',
      listWidget = \<lparr>entries = [''up'', ''keys'', ''a'', ''b''], selection = [2]\<rparr>,
      textWidget = ''1'', commandWidget = ''>>> ''\<rparr>"

definition ex_dived :: window where
  "ex_dived =
     \<lparr>inspectors = [ex_dict_inspector\<lparr>lastPartNumber := 2\<rparr>, ex_int_inspector],
      top_title = ''Inspecting: Int'',
      listWidget = \<lparr>entries = [''up''], selection = [0]\<rparr>,
      textWidget = ''1'', commandWidget = ''>>> ''\<rparr>"

definition ex_spawned :: window where
  "ex_spawned =
     \<lparr>inspectors = [ex_int_inspector], top_title = ''Inspecting: Int'',
      listWidget = \<lparr>entries = [''up''], selection = [0]\<rparr>,
      textWidget = ''1'', commandWidget = ''>>> ''\<rparr>"

text \<open>
  The window that \<^verbatim>\<open>inspect({'d': {'m': {1: 'x', 'a': 'y'}}})\<close> opens; the same window
  after the user has selected the entry \<^verbatim>\<open>d\<close>; after a dive into that part; and after
  the user has selected the entry \<^verbatim>\<open>m\<close> there, the dictionary for which no inspector
  can be constructed.
\<close>

definition ex_root_opened :: window where
  "ex_root_opened =
     \<lparr>inspectors = [ex_root_inspector], top_title = ''Inspecting: Dict'',
      listWidget = \<lparr>entries = [''up'', ''d''], selection = [0]\<rparr>,
      textWidget = ''{'d': {'m': {1: 'x', 'a': 'y'}}}'', commandWidget = ''>>> ''\<rparr>"

definition ex_root_selected :: window where
  "ex_root_selected =
     \<lparr>inspectors = [ex_root_inspector\<lparr>lastPartNumber := 1\<rparr>],
      top_title = ''Inspecting: Dict'',
      listWidget = \<lparr>entries = [''up'', ''d''], selection = [1]\<rparr>,
      textWidget = ''{'m': {1: 'x', 'a': 'y'}}'', commandWidget = ''>>> ''\<rparr>"

definition ex_nested_dived :: window where
  "ex_nested_dived =
     \<lparr>inspectors = [ex_root_inspector\<lparr>lastPartNumber := 1\<rparr>, ex_nested_inspector],
      top_title = ''Inspecting: Dict'',
      listWidget = \<lparr>entries = [''up'', ''m''], selection = [0]\<rparr>,
      textWidget = ''{'m': {1: 'x', 'a': 'y'}}'', commandWidget = ''>>> ''\<rparr>"

definition ex_stuck :: window where
  "ex_stuck =
     \<lparr>inspectors = [ex_root_inspector\<lparr>lastPartNumber := 1\<rparr>,
                    ex_nested_inspector\<lparr>lastPartNumber := 1\<rparr>],
      top_title = ''Inspecting: Dict'',
      listWidget = \<lparr>entries = [''up'', ''m''], selection = [1]\<rparr>,
      textWidget = ''{1: 'x', 'a': 'y'}'', commandWidget = ''>>> ''\<rparr>"

text \<open>
  An evaluator for the examples. It is Python's \<^verbatim>\<open>eval\<close> on the three command lines
  \<^verbatim>\<open>this\<close>, \<^verbatim>\<open>object\<close> and \<^verbatim>\<open>1/0\<close>, and on a name that is not bound, such as
  \<^verbatim>\<open>x\<close>; it is used on these lines only.
\<close>

definition ex_eval :: "string \<Rightarrow> pyobj \<Rightarrow> pyobj \<Rightarrow> pyobj result" where
  "ex_eval command this ob =
     (if command = ''this'' then Inr this
      else if command = ''object'' then Inr ob
      else if command = ''1/0'' then Inl ZeroDivisionError
      else Inl NameError)"

section \<open>Properties\<close>

subsection \<open>Sorting part identifiers\<close>

lemma py_lt_error: "py_lt a b = Inl e \<Longrightarrow> e = TypeError"
  by (cases a; cases b) simp_all

lemma py_lt_kind: "py_lt a b = Inr r \<Longrightarrow> is_str_key a = is_str_key b"
  by (cases a; cases b) simp_all

lemma py_insort_set: "py_insort x ys = Inr zs \<Longrightarrow> set zs = insert x (set ys)"
proof (induction ys arbitrary: zs)
  case Nil
  then show ?case by auto
next
  case (Cons y ys)
  show ?case
  proof (cases "py_lt y x")
    case (Inl e)
    with Cons.prems show ?thesis by simp
  next
    case (Inr lt)
    show ?thesis
    proof (cases lt)
      case False
      with Inr Cons.prems show ?thesis by auto
    next
      case True
      with Inr Cons.prems obtain ws where ws: "py_insort x ys = Inr ws" "zs = y # ws"
        by (cases "py_insort x ys") auto
      from Cons.IH [OF ws(1)] ws(2) show ?thesis by auto
    qed
  qed
qed

lemma py_insort_error: "py_insort x ys = Inl e \<Longrightarrow> e = TypeError"
proof (induction ys)
  case Nil
  then show ?case by simp
next
  case (Cons y ys)
  show ?case
  proof (cases "py_lt y x")
    case (Inl e')
    with Cons.prems have "e = e'" by simp
    with Inl show ?thesis by (simp add: py_lt_error)
  next
    case (Inr lt)
    show ?thesis
    proof (cases lt)
      case False
      with Inr Cons.prems show ?thesis by simp
    next
      case True
      with Inr Cons.prems have "py_insort x ys = Inl e"
        by (cases "py_insort x ys") auto
      then show ?thesis by (rule Cons.IH)
    qed
  qed
qed

lemma py_sorted_error: "py_sorted xs = Inl e \<Longrightarrow> e = TypeError"
proof (induction xs)
  case Nil
  then show ?case by simp
next
  case (Cons x xs)
  show ?case
  proof (cases "py_sorted xs")
    case (Inl e')
    with Cons.prems have "e = e'" by simp
    with Inl Cons.IH show ?thesis by simp
  next
    case (Inr ys)
    with Cons.prems have "py_insort x ys = Inl e" by simp
    then show ?thesis by (rule py_insort_error)
  qed
qed

lemma py_insort_kind:
  assumes "py_insort x (y # ys) = Inr zs"
  shows "is_str_key x = is_str_key y"
proof (cases "py_lt y x")
  case (Inl e)
  with assms show ?thesis by simp
next
  case (Inr r)
  then show ?thesis using py_lt_kind by metis
qed

lemma py_sorted_set: "py_sorted xs = Inr ys \<Longrightarrow> set ys = set xs"
proof (induction xs arbitrary: ys)
  case Nil
  then show ?case by simp
next
  case (Cons x xs)
  then obtain ws where ws: "py_sorted xs = Inr ws" "py_insort x ws = Inr ys"
    by (cases "py_sorted xs") auto
  from py_insort_set [OF ws(2)] Cons.IH [OF ws(1)] show ?case by simp
qed

lemma py_sorted_homogeneous:
  "py_sorted xs = Inr ys \<Longrightarrow> a \<in> set xs \<Longrightarrow> b \<in> set xs \<Longrightarrow> is_str_key a = is_str_key b"
proof (induction xs arbitrary: ys a b)
  case Nil then show ?case by simp
next
  case (Cons x xs)
  from Cons.prems(1) obtain ws where ws: "py_sorted xs = Inr ws" "py_insort x ws = Inr ys"
    by (cases "py_sorted xs") auto
  have same: "is_str_key x = is_str_key c" if "c \<in> set xs" for c
  proof -
    from that have "c \<in> set ws" by (simp add: py_sorted_set [OF ws(1)])
    then obtain w ws' where w: "ws = w # ws'" by (cases ws) auto
    from ws(2) have "is_str_key x = is_str_key w"
      unfolding w by (rule py_insort_kind)
    moreover have "w \<in> set ws" by (simp add: w)
    then have "w \<in> set xs" using py_sorted_set [OF ws(1)] by simp
    then have "is_str_key w = is_str_key c" using that by (rule Cons.IH [OF ws(1)])
    ultimately show ?thesis by simp
  qed
  have ih: "is_str_key c = is_str_key d" if "c \<in> set xs" "d \<in> set xs" for c d
    using that by (rule Cons.IH [OF ws(1)])
  from Cons.prems(2) have a: "a = x \<or> a \<in> set xs" by simp
  from Cons.prems(3) have b: "b = x \<or> b \<in> set xs" by simp
  from a b show ?case
  proof (elim disjE)
    assume "a = x" "b = x" then show ?thesis by simp
  next
    assume "a = x" "b \<in> set xs" then show ?thesis using same by simp
  next
    assume "a \<in> set xs" "b = x" then show ?thesis using same by simp
  next
    assume "a \<in> set xs" "b \<in> set xs" then show ?thesis by (rule ih)
  qed
qed

lemma py_sorted_mixed:
  assumes "k \<in> set xs" and "\<not> is_str_key k" and "StrK b \<in> set xs"
  shows "py_sorted xs = Inl TypeError"
proof (cases "py_sorted xs")
  case (Inl e)
  then show ?thesis using py_sorted_error by blast
next
  case (Inr ys)
  from py_sorted_homogeneous [OF Inr assms(1,3)] assms(2) show ?thesis by simp
qed

lemma py_insort_StrK: "py_insort (StrK x) (map StrK ys) = Inr (map StrK (insort x ys))"
  by (induction ys) (auto simp: not_less dest: leD)

lemma py_sorted_StrK: "py_sorted (map StrK ns) = Inr (map StrK (sort ns))"
  by (induction ns) (simp_all add: py_insort_StrK)

lemma py_insort_IntK: "py_insort (IntK x) (map IntK ys) = Inr (map IntK (insort x ys))"
  by (induction ys) (simp_all add: not_less)

lemma py_sorted_IntK: "py_sorted (map IntK ns) = Inr (map IntK (sort ns))"
  by (induction ns) (simp_all add: py_insort_IntK)

lemma py_insort_mset: "py_insort x ys = Inr zs \<Longrightarrow> mset zs = add_mset x (mset ys)"
proof (induction ys arbitrary: zs)
  case Nil
  then show ?case by auto
next
  case (Cons y ys)
  show ?case
  proof (cases "py_lt y x")
    case (Inl e)
    with Cons.prems show ?thesis by simp
  next
    case (Inr lt)
    show ?thesis
    proof (cases lt)
      case False
      with Inr Cons.prems show ?thesis by auto
    next
      case True
      with Inr Cons.prems obtain ws where ws: "py_insort x ys = Inr ws" "zs = y # ws"
        by (cases "py_insort x ys") auto
      from Cons.IH [OF ws(1)] ws(2) show ?thesis by simp
    qed
  qed
qed

lemma py_sorted_mset: "py_sorted xs = Inr ys \<Longrightarrow> mset ys = mset xs"
proof (induction xs arbitrary: ys)
  case Nil
  then show ?case by simp
next
  case (Cons x xs)
  then obtain ws where ws: "py_sorted xs = Inr ws" "py_insort x ws = Inr ys"
    by (cases "py_sorted xs") auto
  from py_insort_mset [OF ws(2)] Cons.IH [OF ws(1)] show ?case by simp
qed




text \<open>A list in which no element is less than the one before it is sorted as it is.\<close>

lemma py_sorted_no_descent: "no_descent xs \<Longrightarrow> py_sorted xs = Inr xs"
proof (induction xs rule: no_descent.induct)
  case (1 x y ys)
  then have lt: "py_lt y x = Inr False" and "py_sorted (y # ys) = Inr (y # ys)" by simp_all
  then show ?case by simp
qed simp_all

subsection \<open>The registry\<close>

lemmas char_defs = upper_char_def lower_char_def lower_letters_def upper_letters_def

lemmas registry_defs = initializeInspectorMap_def notFinishedTypes_def inspectorMapLiteral_def

lemma inspectorFor_registered:
  assumes "initializeInspectorMap (typeName_of ob) = Some name" and "globals name = Some cls"
  shows "inspectorFor ob = ([], Inspector_init cls ob)"
  using assms by (simp add: inspectorFor_def Let_def dom_def)


lemma capitalized_names:
  "capitalize ''module'' @ ''Type'' = ''ModuleType''"
  "capitalize ''function'' @ ''Type'' = ''FunctionType''"
  "capitalize ''method'' @ ''Type'' = ''MethodType''"
  "capitalize ''builtin_function_or_method'' @ ''Type'' = ''Builtin_function_or_methodType''"
  "capitalize ''code'' @ ''Type'' = ''CodeType''"
  "capitalize ''complex'' @ ''Type'' = ''ComplexType''"
  "capitalize ''type'' @ ''Type'' = ''TypeType''"
  "capitalize ''dict'' @ ''Type'' = ''DictType''"
  "capitalize ''list'' @ ''Type'' = ''ListType''"
  "capitalize ''tuple'' @ ''Type'' = ''TupleType''"
  "capitalize ''slice'' @ ''Type'' = ''SliceType''"
  by (simp_all add: char_defs)

lemma registry_rows:
  "initializeInspectorMap ''ModuleType'' = Some ''ModuleInspector''"
  "initializeInspectorMap ''FunctionType'' = Some ''FunctionInspector''"
  "initializeInspectorMap ''MethodType'' = Some ''FunctionInspector''"
  "initializeInspectorMap ''Builtin_function_or_methodType'' = Some ''FunctionInspector''"
  "initializeInspectorMap ''CodeType'' = Some ''CodeInspector''"
  "initializeInspectorMap ''ComplexType'' = Some ''Inspector''"
  "initializeInspectorMap ''TypeType'' = Some ''Inspector''"
  "initializeInspectorMap ''DictType'' = Some ''DictionaryInspector''"
  "initializeInspectorMap ''ListType'' = Some ''SequenceInspector''"
  "initializeInspectorMap ''TupleType'' = Some ''SequenceInspector''"
  "initializeInspectorMap ''SliceType'' = Some ''SliceInspector''"
  by (simp_all add: registry_defs)

lemma globals_rows:
  "globals ''CodeInspector'' = Some CodeInspector"
  "globals ''DictionaryInspector'' = Some DictionaryInspector"
  "globals ''FunctionInspector'' = Some FunctionInspector"
  "globals ''Inspector'' = Some Inspector"
  "globals ''ModuleInspector'' = Some ModuleInspector"
  "globals ''SequenceInspector'' = Some SequenceInspector"
  "globals ''SliceInspector'' = Some SliceInspector"
  by (simp_all add: globals_def)

lemma registered_class_rows:
  "\<forall>(n, cls) \<in> set
     [(''module'', ModuleInspector), (''function'', FunctionInspector),
      (''method'', FunctionInspector), (''builtin_function_or_method'', FunctionInspector),
      (''code'', CodeInspector), (''complex'', Inspector), (''type'', Inspector),
      (''dict'', DictionaryInspector), (''list'', SequenceInspector),
      (''tuple'', SequenceInspector), (''slice'', SliceInspector)].
     (case initializeInspectorMap (capitalize n @ ''Type'') of
        None \<Rightarrow> False
      | Some name \<Rightarrow> globals name = Some cls)"
  by (simp add: char_defs registry_rows globals_rows)

lemma registered_class:
  assumes "(n, cls) \<in> set
     [(''module'', ModuleInspector), (''function'', FunctionInspector),
      (''method'', FunctionInspector), (''builtin_function_or_method'', FunctionInspector),
      (''code'', CodeInspector), (''complex'', Inspector), (''type'', Inspector),
      (''dict'', DictionaryInspector), (''list'', SequenceInspector),
      (''tuple'', SequenceInspector), (''slice'', SliceInspector)]"
  shows "\<exists>name. initializeInspectorMap (capitalize n @ ''Type'') = Some name \<and> globals name = Some cls"
proof -
  from bspec [OF registered_class_rows assms]
  have "case initializeInspectorMap (capitalize n @ ''Type'') of
        None \<Rightarrow> False
      | Some name \<Rightarrow> globals name = Some cls"
    by simp
  then show ?thesis
    by (cases "initializeInspectorMap (capitalize n @ ''Type'')") simp_all
qed

text \<open>
  Claim C2, as the specification states it, has \<^verbatim>\<open>inspectorFor\<close> give strings a
  SequenceInspector, complex numbers a ComplexInspector, classes a ClassInspector and
  instances of user-defined classes an InstanceInspector. The code gives each of them the
  base Inspector: the keys are \<^verbatim>\<open>StrType\<close> (absent from the registry, which holds
  \<^verbatim>\<open>StringType\<close>), \<^verbatim>\<open>ComplexType\<close> and \<^verbatim>\<open>TypeType\<close> (both registered to
  \<^verbatim>\<open>Inspector\<close>) and \<^verbatim>\<open>FooType\<close> (absent).
\<close>

theorem inspectorFor_selects_counterexample:
  "selected (py_str ''abc'') = Inr Inspector \<and> selected ex_complex = Inr Inspector
   \<and> selected ex_class = Inr Inspector \<and> selected ex_instance = Inr Inspector"
  by (simp add: selected_def inspectorFor_def Let_def typeName_of_def type_name_def char_defs registry_defs
     py_str_def ex_complex_def ex_class_def ex_instance_def globals_def dom_def Inspector_init_def initializePartsList_def
     Inspector_initializePartsList_def namedParts_def  py_float_def)

text \<open>
  Claim C2, amended: the key is the type name capitalized (first letter in upper case, the
  others in lower case) followed by \<^verbatim>\<open>Type\<close>, and through it \<^verbatim>\<open>inspectorFor\<close>
  constructs a ModuleInspector for a module, a FunctionInspector for a plain function, a
  bound method and a built-in function, a CodeInspector for a code object, a
  DictionaryInspector for a dictionary, a SequenceInspector for a list and a tuple, a
  SliceInspector for a slice, and the base Inspector for a complex number and for a class
  (whose type is named \<^verbatim>\<open>type\<close>), without printing a diagnostic.
\<close>

theorem inspectorFor_selects:
  assumes "(type_name ob, cls) \<in> set
     [(''module'', ModuleInspector), (''function'', FunctionInspector),
      (''method'', FunctionInspector), (''builtin_function_or_method'', FunctionInspector),
      (''code'', CodeInspector), (''complex'', Inspector), (''type'', Inspector),
      (''dict'', DictionaryInspector), (''list'', SequenceInspector),
      (''tuple'', SequenceInspector), (''slice'', SliceInspector)]"
  shows "typeName_of ob = capitalize (type_name ob) @ ''Type''
     \<and> (\<exists>name. initializeInspectorMap (typeName_of ob) = Some name \<and> globals name = Some cls)
     \<and> inspectorFor ob = ([], Inspector_init cls ob)"
proof -
  have key: "typeName_of ob = capitalize (type_name ob) @ ''Type''"
    by (simp add: typeName_of_def)
  from registered_class [OF assms] obtain name where
    name: "initializeInspectorMap (typeName_of ob) = Some name" "globals name = Some cls"
    unfolding key by blast
  from inspectorFor_registered [OF name] have "inspectorFor ob = ([], Inspector_init cls ob)" .
  with key name show ?thesis by blast
qed

theorem inspectorFor_selects_witness:
  "inspectorFor ex_list = ([], Inspector_init SequenceInspector ex_list)
   \<and> inspectorFor ex_dict = ([], Inspector_init DictionaryInspector ex_dict)
   \<and> inspectorFor ex_complex = ([], Inspector_init Inspector ex_complex)"
proof -
  have 1: "(type_name ex_list, SequenceInspector) \<in> set
     [(''module'', ModuleInspector), (''function'', FunctionInspector),
      (''method'', FunctionInspector), (''builtin_function_or_method'', FunctionInspector),
      (''code'', CodeInspector), (''complex'', Inspector), (''type'', Inspector),
      (''dict'', DictionaryInspector), (''list'', SequenceInspector),
      (''tuple'', SequenceInspector), (''slice'', SliceInspector)]"
    by (simp add: type_name_def ex_list_def)
  have 2: "(type_name ex_dict, DictionaryInspector) \<in> set
     [(''module'', ModuleInspector), (''function'', FunctionInspector),
      (''method'', FunctionInspector), (''builtin_function_or_method'', FunctionInspector),
      (''code'', CodeInspector), (''complex'', Inspector), (''type'', Inspector),
      (''dict'', DictionaryInspector), (''list'', SequenceInspector),
      (''tuple'', SequenceInspector), (''slice'', SliceInspector)]"
    by (simp add: type_name_def ex_dict_def)
  have 3: "(type_name ex_complex, Inspector) \<in> set
     [(''module'', ModuleInspector), (''function'', FunctionInspector),
      (''method'', FunctionInspector), (''builtin_function_or_method'', FunctionInspector),
      (''code'', CodeInspector), (''complex'', Inspector), (''type'', Inspector),
      (''dict'', DictionaryInspector), (''list'', SequenceInspector),
      (''tuple'', SequenceInspector), (''slice'', SliceInspector)]"
    by (simp add: type_name_def ex_complex_def)
  from inspectorFor_selects [OF 1] inspectorFor_selects [OF 2] inspectorFor_selects [OF 3]
  show ?thesis by blast
qed

subsection \<open>Construction of an inspector\<close>


lemma all_int_keys: "list_all is_int_key ks \<Longrightarrow> \<exists>ns. ks = map IntK ns"
proof (induction ks)
  case Nil then show ?case by simp
next
  case (Cons k ks)
  then obtain ns where "ks = map IntK ns" by auto
  moreover from Cons.prems obtain n where "k = IntK n" by (cases k) auto
  ultimately have "k # ks = map IntK (n # ns)" by simp
  then show ?case by (rule exI)
qed

lemma all_str_keys: "list_all is_str_key ks \<Longrightarrow> \<exists>ns. ks = map StrK ns"
proof (induction ks)
  case Nil then show ?case by simp
next
  case (Cons k ks)
  then obtain ns where "ks = map StrK ns" by auto
  moreover from Cons.prems obtain n where "k = StrK n" by (cases k) auto
  ultimately have "k # ks = map StrK (n # ns)" by simp
  then show ?case by (rule exI)
qed

lemma all_str_keys_map [simp]: "list_all is_str_key (map StrK ns)"
  by (induction ns) simp_all



lemma str_key_StrK [simp]: "str_key \<circ> StrK = id"
  by (rule ext) simp














subsection \<open>The example inspectors\<close>

lemmas example_defs = py_int_def py_str_def py_float_def py_builtin_def ex_complex_def ex_class_def
  ex_instance_def ex_weird_def ex_mixed_dict_def ex_nan_dict_def ex_dict_def ex_list_def
  ex_nested_def ex_root_def

lemmas init_defs = Inspector_init_def initializePartsList_def Inspector_initializePartsList_def
  namedParts_def initializePartNames_def py_iter_def py_len_def

lemma str_nat_digit: "n < 10 \<Longrightarrow> str_nat n = [''0123456789'' ! n]"
  by (subst str_nat.simps) simp

lemma example_inits:
  "Inspector_init DictionaryInspector ex_dict = Inr ex_dict_inspector"
  "Inspector_init SequenceInspector ex_list = Inr ex_list_inspector"
  "Inspector_init Inspector ex_complex = Inr ex_complex_inspector"
proof -
  show "Inspector_init DictionaryInspector ex_dict = Inr ex_dict_inspector"
    by (simp add: init_defs ex_dict_inspector_def ex_dict_def)
  show "Inspector_init SequenceInspector ex_list = Inr ex_list_inspector"
    by (simp add: init_defs ex_list_inspector_def ex_list_def upt_rec str_int_def str_nat_digit)
  show "Inspector_init Inspector ex_complex = Inr ex_complex_inspector"
    by (simp add: init_defs ex_complex_inspector_def ex_complex_def)
qed

lemma example_type_names:
  "typeName_of ex_dict = ''DictType''"
  "typeName_of ex_list = ''ListType''"
  "typeName_of ex_complex = ''ComplexType''"
  by (simp_all add: typeName_of_def type_name_def char_defs ex_dict_def ex_list_def ex_complex_def)

lemma example_inspectors:
  "inspectorFor ex_dict = ([], Inr ex_dict_inspector)"
  "inspectorFor ex_list = ([], Inr ex_list_inspector)"
  "inspectorFor ex_complex = ([], Inr ex_complex_inspector)"
proof -
  have "initializeInspectorMap (typeName_of ex_dict) = Some ''DictionaryInspector''"
    by (simp add: example_type_names registry_rows)
  from inspectorFor_registered [OF this globals_rows(2)]
  show "inspectorFor ex_dict = ([], Inr ex_dict_inspector)" by (simp add: example_inits)
  have "initializeInspectorMap (typeName_of ex_list) = Some ''SequenceInspector''"
    by (simp add: example_type_names registry_rows)
  from inspectorFor_registered [OF this globals_rows(6)]
  show "inspectorFor ex_list = ([], Inr ex_list_inspector)" by (simp add: example_inits)
  have "initializeInspectorMap (typeName_of ex_complex) = Some ''Inspector''"
    by (simp add: example_type_names registry_rows)
  from inspectorFor_registered [OF this globals_rows(4)]
  show "inspectorFor ex_complex = ([], Inr ex_complex_inspector)" by (simp add: example_inits)
qed

subsection \<open>Resolving a part\<close>

lemma Inspector_partNumber_fst:
  "fst (Inspector_partNumber self n) = self\<lparr>lastPartNumber := n\<rparr>"
  by (simp add: Inspector_partNumber_def Let_def split: sum.splits)

lemma DictionaryInspector_partNumber_fst:
  "fst (DictionaryInspector_partNumber self n) = self\<lparr>lastPartNumber := n\<rparr>"
  by (simp add: DictionaryInspector_partNumber_def Let_def split: sum.splits)

lemma SequenceInspector_partNumber_fst:
  "fst (SequenceInspector_partNumber self n) = self\<lparr>lastPartNumber := n\<rparr>"
  by (simp add: SequenceInspector_partNumber_def Let_def split: sum.splits)

lemma partNumber_fst: "fst (partNumber self n) = self\<lparr>lastPartNumber := n\<rparr>"
  by (cases "variant self")
    (simp_all add: partNumber_def Inspector_partNumber_fst DictionaryInspector_partNumber_fst
      SequenceInspector_partNumber_fst)

lemma privatePartNumber_in_range:
  assumes "1 \<le> n" and "n \<le> int (length (partsList self))"
  shows "privatePartNumber (self\<lparr>lastPartNumber := m\<rparr>) n = Inr (partsList self ! nat (n - 1))"
  using assms by (simp add: privatePartNumber_def py_index_def Let_def)

lemma Inspector_partNumber_snd:
  assumes "1 \<le> n" and "n \<le> int (length (partsList self))"
  shows "snd (Inspector_partNumber self n) = py_getattr (object self) (partsList self ! nat (n - 1))"
  using assms
  by (simp add: Inspector_partNumber_def Let_def privatePartNumber_in_range)

lemma DictionaryInspector_partNumber_snd:
  assumes "1 \<le> n" and "n \<le> int (length (partsList self))"
  shows "snd (DictionaryInspector_partNumber self n) =
     (case py_contains (object self) (partsList self ! nat (n - 1)) of
        Inl e \<Rightarrow> Inl e
      | Inr present \<Rightarrow>
          if present then py_getitem (object self) (partsList self ! nat (n - 1))
          else py_getattr (object self) (partsList self ! nat (n - 1)))"
  using assms
  by (simp add: DictionaryInspector_partNumber_def Let_def privatePartNumber_in_range
      split: sum.splits)

lemma SequenceInspector_partNumber_snd:
  assumes "1 \<le> n" and "n \<le> int (length (partsList self))"
  shows "snd (SequenceInspector_partNumber self n) =
     (if is_int_key (partsList self ! nat (n - 1))
      then py_getitem (object self) (partsList self ! nat (n - 1))
      else py_getattr (object self) (partsList self ! nat (n - 1)))"
  using assms
  by (simp add: SequenceInspector_partNumber_def Let_def privatePartNumber_in_range)

lemma partNumber_zero: "partNumber self 0 = (self\<lparr>lastPartNumber := 0\<rparr>, Inr (object self))"
  by (cases "variant self")
    (simp_all add: partNumber_def Inspector_partNumber_def DictionaryInspector_partNumber_def
      SequenceInspector_partNumber_def)

text \<open>
  Claim C3. For an index \<open>n\<close> from 0 to the number of parts, \<^verbatim>\<open>partNumber(n)\<close>
  records \<open>n\<close> as the last selected index (and changes nothing else of the inspector);
  for \<open>n = 0\<close> it returns the wrapped object; for \<open>n \<ge> 1\<close> it resolves entry
  \<open>n - 1\<close> of the parts list: by attribute lookup in the base class and the classes
  that inherit its \<^verbatim>\<open>partNumber\<close>; in DictionaryInspector by keyed lookup when the entry
  is a key of the object and by attribute lookup when it is not; in SequenceInspector by
  indexing when the entry is an int and by attribute lookup otherwise.
\<close>

theorem partNumber_resolves:
  assumes "0 \<le> n" and "n \<le> int (length (partsList self))"
  shows "fst (partNumber self n) = self\<lparr>lastPartNumber := n\<rparr>
    \<and> (n = 0 \<longrightarrow> snd (partNumber self n) = Inr (object self))
    \<and> (1 \<le> n \<longrightarrow>
         (variant self \<noteq> DictionaryInspector \<and> variant self \<noteq> SequenceInspector \<longrightarrow>
            snd (partNumber self n) = py_getattr (object self) (partsList self ! nat (n - 1)))
       \<and> (variant self = DictionaryInspector \<longrightarrow>
            (py_contains (object self) (partsList self ! nat (n - 1)) = Inr True \<longrightarrow>
               snd (partNumber self n) = py_getitem (object self) (partsList self ! nat (n - 1)))
          \<and> (py_contains (object self) (partsList self ! nat (n - 1)) = Inr False \<longrightarrow>
               snd (partNumber self n) = py_getattr (object self) (partsList self ! nat (n - 1))))
       \<and> (variant self = SequenceInspector \<longrightarrow>
            (is_int_key (partsList self ! nat (n - 1)) \<longrightarrow>
               snd (partNumber self n) = py_getitem (object self) (partsList self ! nat (n - 1)))
          \<and> (\<not> is_int_key (partsList self ! nat (n - 1)) \<longrightarrow>
               snd (partNumber self n) = py_getattr (object self) (partsList self ! nat (n - 1)))))"
proof (intro conjI impI)
  show "fst (partNumber self n) = self\<lparr>lastPartNumber := n\<rparr>" by (rule partNumber_fst)
next
  assume "n = 0"
  then show "snd (partNumber self n) = Inr (object self)" by (simp add: partNumber_zero)
next
  assume "1 \<le> n" "variant self \<noteq> DictionaryInspector \<and> variant self \<noteq> SequenceInspector"
  then show "snd (partNumber self n) = py_getattr (object self) (partsList self ! nat (n - 1))"
    using assms(2)
    by (cases "variant self") (simp_all add: partNumber_def Inspector_partNumber_snd)
next
  assume "1 \<le> n" "variant self = DictionaryInspector"
    "py_contains (object self) (partsList self ! nat (n - 1)) = Inr True"
  then show "snd (partNumber self n) = py_getitem (object self) (partsList self ! nat (n - 1))"
    using assms(2) by (simp add: partNumber_def DictionaryInspector_partNumber_snd)
next
  assume "1 \<le> n" "variant self = DictionaryInspector"
    "py_contains (object self) (partsList self ! nat (n - 1)) = Inr False"
  then show "snd (partNumber self n) = py_getattr (object self) (partsList self ! nat (n - 1))"
    using assms(2) by (simp add: partNumber_def DictionaryInspector_partNumber_snd)
next
  assume "1 \<le> n" "variant self = SequenceInspector"
    "is_int_key (partsList self ! nat (n - 1))"
  then show "snd (partNumber self n) = py_getitem (object self) (partsList self ! nat (n - 1))"
    using assms(2) by (simp add: partNumber_def SequenceInspector_partNumber_snd)
next
  assume "1 \<le> n" "variant self = SequenceInspector"
    "\<not> is_int_key (partsList self ! nat (n - 1))"
  then show "snd (partNumber self n) = py_getattr (object self) (partsList self ! nat (n - 1))"
    using assms(2) by (simp add: partNumber_def SequenceInspector_partNumber_snd)
qed

theorem partNumber_resolves_witness:
  "partNumber ex_dict_inspector 0 = (ex_dict_inspector\<lparr>lastPartNumber := 0\<rparr>, Inr ex_dict)
   \<and> partNumber ex_dict_inspector 2 = (ex_dict_inspector\<lparr>lastPartNumber := 2\<rparr>, Inr (py_int 1))
   \<and> partNumber ex_dict_inspector 1 =
       (ex_dict_inspector\<lparr>lastPartNumber := 1\<rparr>,
        Inr (py_builtin ''<built-in method keys of dict object>''))
   \<and> partNumber ex_list_inspector 2 = (ex_list_inspector\<lparr>lastPartNumber := 2\<rparr>, Inr (py_int 10))
   \<and> partNumber ex_list_inspector 1 =
       (ex_list_inspector\<lparr>lastPartNumber := 1\<rparr>,
        Inr (py_builtin ''<built-in method append of list object>''))
   \<and> partNumber ex_complex_inspector 1 =
       (ex_complex_inspector\<lparr>lastPartNumber := 1\<rparr>, Inr (py_float ''2.0''))"
proof -
  have d: "partsList ex_dict_inspector = [StrK ''keys'', StrK ''a'', StrK ''b'']"
    "variant ex_dict_inspector = DictionaryInspector" "object ex_dict_inspector = ex_dict"
    by (simp_all add: ex_dict_inspector_def)
  have l: "partsList ex_list_inspector = [StrK ''append'', IntK 0, IntK 1, IntK 2]"
    "variant ex_list_inspector = SequenceInspector" "object ex_list_inspector = ex_list"
    by (simp_all add: ex_list_inspector_def)
  have c: "partsList ex_complex_inspector = [StrK ''imag'', StrK ''real'']"
    "variant ex_complex_inspector = Inspector" "object ex_complex_inspector = ex_complex"
    by (simp_all add: ex_complex_inspector_def)
  have 1: "partNumber ex_dict_inspector 0 = (ex_dict_inspector\<lparr>lastPartNumber := 0\<rparr>, Inr ex_dict)"
    using partNumber_resolves [of 0 ex_dict_inspector]
    by (simp add: d prod_eq_iff)
  have 2: "partNumber ex_dict_inspector 2 = (ex_dict_inspector\<lparr>lastPartNumber := 2\<rparr>, Inr (py_int 1))"
    using partNumber_resolves [of 2 ex_dict_inspector]
    by (simp add: d prod_eq_iff py_contains_def py_getitem_def ex_dict_def)
  have 3: "partNumber ex_dict_inspector 1 =
       (ex_dict_inspector\<lparr>lastPartNumber := 1\<rparr>,
        Inr (py_builtin ''<built-in method keys of dict object>''))"
    using partNumber_resolves [of 1 ex_dict_inspector]
    by (simp add: d prod_eq_iff py_contains_def ex_dict_def)
  have 4: "partNumber ex_list_inspector 2 = (ex_list_inspector\<lparr>lastPartNumber := 2\<rparr>, Inr (py_int 10))"
    using partNumber_resolves [of 2 ex_list_inspector]
    by (simp add: l prod_eq_iff py_getitem_def py_index_def ex_list_def)
  have 5: "partNumber ex_list_inspector 1 =
       (ex_list_inspector\<lparr>lastPartNumber := 1\<rparr>,
        Inr (py_builtin ''<built-in method append of list object>''))"
    using partNumber_resolves [of 1 ex_list_inspector]
    by (simp add: l prod_eq_iff ex_list_def)
  have 6: "partNumber ex_complex_inspector 1 =
       (ex_complex_inspector\<lparr>lastPartNumber := 1\<rparr>, Inr (py_float ''2.0''))"
    using partNumber_resolves [of 1 ex_complex_inspector]
    by (simp add: c prod_eq_iff ex_complex_def)
  from 1 2 3 4 5 6 show ?thesis by simp
qed

text \<open>
  Claim C10. Every \<^verbatim>\<open>partNumber\<close> method assigns \<^verbatim>\<open>lastPartNumber\<close> first: whatever
  the resolution does, the inspector after the call is the inspector before it with
  \<open>n\<close> as its last selected index; in particular when the resolution raises.
\<close>

theorem partNumber_assigns_first:
  "fst (partNumber self n) = self\<lparr>lastPartNumber := n\<rparr>
   \<and> fst (Inspector_partNumber self n) = self\<lparr>lastPartNumber := n\<rparr>
   \<and> fst (DictionaryInspector_partNumber self n) = self\<lparr>lastPartNumber := n\<rparr>
   \<and> fst (SequenceInspector_partNumber self n) = self\<lparr>lastPartNumber := n\<rparr>
   \<and> (\<forall>e. snd (partNumber self n) = Inl e \<longrightarrow> lastPartNumber (fst (partNumber self n)) = n)"
  by (simp add: partNumber_fst Inspector_partNumber_fst DictionaryInspector_partNumber_fst
      SequenceInspector_partNumber_fst)

theorem partNumber_assigns_first_witness:
  "partNumber ex_dict_inspector 4 = (ex_dict_inspector\<lparr>lastPartNumber := 4\<rparr>, Inl IndexError)
   \<and> partNumber (ex_complex_inspector\<lparr>object := ex_instance\<rparr>) 1
       = (ex_complex_inspector\<lparr>object := ex_instance, lastPartNumber := 1\<rparr>, Inl AttributeError)
   \<and> lastPartNumber (fst (partNumber ex_dict_inspector 4)) = 4"
proof -
  have s: "snd (partNumber ex_dict_inspector 4) = Inl IndexError"
    by (simp add: partNumber_def DictionaryInspector_partNumber_def privatePartNumber_def
        py_index_def ex_dict_inspector_def)
  have t: "snd (partNumber (ex_complex_inspector\<lparr>object := ex_instance\<rparr>) 1) = Inl AttributeError"
    by (simp add: partNumber_def Inspector_partNumber_def privatePartNumber_def
        py_index_def ex_complex_inspector_def ex_instance_def)
  from partNumber_assigns_first [of ex_dict_inspector 4] s
  have "partNumber ex_dict_inspector 4 = (ex_dict_inspector\<lparr>lastPartNumber := 4\<rparr>, Inl IndexError)"
    "lastPartNumber (fst (partNumber ex_dict_inspector 4)) = 4"
    by (simp_all add: prod_eq_iff)
  moreover from partNumber_assigns_first [of "ex_complex_inspector\<lparr>object := ex_instance\<rparr>" 1] t
  have "partNumber (ex_complex_inspector\<lparr>object := ex_instance\<rparr>) 1
       = (ex_complex_inspector\<lparr>object := ex_instance, lastPartNumber := 1\<rparr>, Inl AttributeError)"
    by (simp add: prod_eq_iff)
  ultimately show ?thesis by simp
qed

subsection \<open>The parts list\<close>

lemma py_sorted_success_homogeneous:
  assumes "py_sorted ks = Inr ys"
  shows "\<not> (\<exists>k b. k \<in> set ks \<and> \<not> is_str_key k \<and> StrK b \<in> set ks)"
proof
  assume "\<exists>k b. k \<in> set ks \<and> \<not> is_str_key k \<and> StrK b \<in> set ks"
  then obtain k b where "k \<in> set ks" "\<not> is_str_key k" "StrK b \<in> set ks" by blast
  then have "py_sorted ks = Inl TypeError" by (rule py_sorted_mixed)
  with assms show False by simp
qed

lemma sorted_wrt_key_le_IntK: "sorted_wrt key_le (map IntK (sort ns))"
  by (simp add: sorted_wrt_map)

lemma sorted_wrt_key_le_StrK: "sorted_wrt key_le (map StrK (sort ns))"
  by (simp add: sorted_wrt_map)

text \<open>
  What \<^verbatim>\<open>sorted\<close> returns is a permutation of the list; it is in ascending order when
  the list holds ints only or strings only.
\<close>

lemma py_sorted_spec:
  assumes "py_sorted ks = Inr ys" and "list_all is_int_key ks \<or> list_all is_str_key ks"
  shows "sorted_wrt key_le ys"
  using assms(2)
proof
  assume "list_all is_str_key ks"
  then obtain ns where ns: "ks = map StrK ns" using all_str_keys by blast
  with assms(1) have "ys = map StrK (sort ns)" by (simp add: py_sorted_StrK)
  then show ?thesis by (simp add: sorted_wrt_key_le_StrK)
next
  assume "list_all is_int_key ks"
  then obtain ns where ns: "ks = map IntK ns" using all_int_keys by blast
  with assms(1) have "ys = map IntK (sort ns)" by (simp add: py_sorted_IntK)
  then show ?thesis by (simp add: sorted_wrt_key_le_IntK)
qed

lemma py_sorted_unchanged:
  assumes "py_sorted ks = Inr ys" and "no_descent ks"
  shows "ys = ks"
  using assms by (simp add: py_sorted_no_descent)

lemma Inspector_init_fields:
  assumes "Inspector_init cls ob = Inr i"
  shows "initializePartsList cls ob = Inr (partsList i)"
    and "partNames i = ''up'' # map str_key (partsList i)"
    and "variant i = cls" and "object i = ob" and "lastPartNumber i = 0"
  using assms
  by (auto simp: Inspector_init_def initializePartNames_def split: sum.splits)

lemma initializePartsList_cases:
  assumes "initializePartsList cls ob = Inr ps"
  obtains names base where "namedParts cls ob = Inr names" "py_sorted names = Inr base"
    "cls = DictionaryInspector \<longrightarrow>
       (\<exists>ks sks. py_iter ob = Inr ks \<and> py_sorted ks = Inr sks \<and> ps = base @ sks)"
    "cls = SequenceInspector \<longrightarrow>
       (\<exists>len. py_len ob = Inr len \<and> ps = base @ map (\<lambda>j. IntK (int j)) [0..<len])"
    "cls \<noteq> DictionaryInspector \<and> cls \<noteq> SequenceInspector \<longrightarrow> ps = base"
proof -
  from assms obtain base where base: "Inspector_initializePartsList cls ob = Inr base"
    by (cases "Inspector_initializePartsList cls ob") (simp_all add: initializePartsList_def)
  then obtain names where names: "namedParts cls ob = Inr names" "py_sorted names = Inr base"
    by (cases "namedParts cls ob") (simp_all add: Inspector_initializePartsList_def)
  have d: "cls = DictionaryInspector \<longrightarrow>
       (\<exists>ks sks. py_iter ob = Inr ks \<and> py_sorted ks = Inr sks \<and> ps = base @ sks)"
    using assms base
    by (auto simp: initializePartsList_def split: sum.splits)
  have s: "cls = SequenceInspector \<longrightarrow>
       (\<exists>len. py_len ob = Inr len \<and> ps = base @ map (\<lambda>j. IntK (int j)) [0..<len])"
    using assms base
    by (auto simp: initializePartsList_def split: sum.splits)
  have o: "cls \<noteq> DictionaryInspector \<and> cls \<noteq> SequenceInspector \<longrightarrow> ps = base"
    using assms base
    by (cases cls) (auto simp: initializePartsList_def)
  from names d s o show ?thesis by (rule that)
qed

text \<open>
  Claim C4, as the specification states it, has DictionaryInspector append the keys of
  the object sorted. \<^verbatim>\<open>initializePartsList\<close> appends them in the order in which
  \<^verbatim>\<open>sorted(self.object)\<close> returns them, and that is ascending order only when
  \<^verbatim>\<open><\<close> orders the keys. For \<^verbatim>\<open>{2: 'a', float('nan'): 'b', 1: 'c'}\<close> every
  comparison with the nan is false, so no key is less than the one before it and
  \<^verbatim>\<open>sorted\<close> returns the keys as they stand: \<^verbatim>\<open>1\<close> is appended after \<^verbatim>\<open>2\<close>.
\<close>

theorem parts_fixed_at_construction_counterexample:
  "inspectorFor ex_nan_dict =
     ([], Inr \<lparr>variant = DictionaryInspector, object = ex_nan_dict, lastPartNumber = 0,
              partsList = [IntK 2, NanK 0, IntK 1],
              partNames = [''up'', ''2'', ''nan'', ''1'']\<rparr>)
   \<and> py_lt (IntK 1) (IntK 2) = Inr True
   \<and> \<not> sorted_wrt key_le [IntK 2, NanK 0, IntK 1]"
proof -
  have "typeName_of ex_nan_dict = ''DictType''"
    by (simp add: typeName_of_def type_name_def char_defs ex_nan_dict_def)
  then have "initializeInspectorMap (typeName_of ex_nan_dict) = Some ''DictionaryInspector''"
    by (simp add: registry_rows)
  from inspectorFor_registered [OF this globals_rows(2)]
  have "inspectorFor ex_nan_dict = ([], Inspector_init DictionaryInspector ex_nan_dict)" .
  moreover have "Inspector_init DictionaryInspector ex_nan_dict =
     Inr \<lparr>variant = DictionaryInspector, object = ex_nan_dict, lastPartNumber = 0,
          partsList = [IntK 2, NanK 0, IntK 1],
          partNames = [''up'', ''2'', ''nan'', ''1'']\<rparr>"
    by (simp add: init_defs ex_nan_dict_def str_int_def str_nat_digit)
  ultimately show ?thesis by simp
qed

text \<open>
  Claim C4, amended. The parts list of an inspector is made when it is constructed: it is
  the named parts in the order in which \<^verbatim>\<open>sorted\<close> returns them; followed, in a
  DictionaryInspector, by the keys of the object in the order in which \<^verbatim>\<open>sorted\<close>
  returns them and, in a SequenceInspector, by the indices \<open>0, ..., len - 1\<close> in order.
  What \<^verbatim>\<open>sorted\<close> returns is a permutation of the list it is given; it is in
  ascending order when the list holds ints only or strings only (names, which are
  strings, stand in lexicographic order), and it is the list as it stands when no element
  of it is less than the one before it. The part names are \<^verbatim>\<open>'up'\<close> followed by the string form of each
  entry in that order, and \<^verbatim>\<open>partNumber\<close>, the only method that assigns to the
  inspector afterwards, changes neither list.
\<close>

theorem parts_fixed_at_construction:
  assumes "Inspector_init cls ob = Inr i"
  shows "\<exists>names base. namedParts cls ob = Inr names
      \<and> mset base = mset names
      \<and> (list_all is_int_key names \<or> list_all is_str_key names \<longrightarrow> sorted_wrt key_le base)
      \<and> (no_descent names \<longrightarrow> base = names)
      \<and> (cls = DictionaryInspector \<longrightarrow>
           (\<exists>ks sks. py_iter ob = Inr ks
              \<and> mset sks = mset ks
              \<and> (list_all is_int_key ks \<or> list_all is_str_key ks \<longrightarrow> sorted_wrt key_le sks)
              \<and> (no_descent ks \<longrightarrow> sks = ks)
              \<and> partsList i = base @ sks))
      \<and> (cls = SequenceInspector \<longrightarrow>
           (\<exists>len. py_len ob = Inr len
              \<and> partsList i = base @ map (\<lambda>j. IntK (int j)) [0..<len]))
      \<and> (cls \<noteq> DictionaryInspector \<and> cls \<noteq> SequenceInspector \<longrightarrow> partsList i = base)
      \<and> partNames i = ''up'' # map str_key (partsList i)
      \<and> (\<forall>n. partsList (fst (partNumber i n)) = partsList i
             \<and> partNames (fst (partNumber i n)) = partNames i)"
proof -
  note f = Inspector_init_fields [OF assms]
  from f(1) obtain names base where nb: "namedParts cls ob = Inr names" "py_sorted names = Inr base"
    and d: "cls = DictionaryInspector \<longrightarrow>
       (\<exists>ks sks. py_iter ob = Inr ks \<and> py_sorted ks = Inr sks \<and> partsList i = base @ sks)"
    and s: "cls = SequenceInspector \<longrightarrow>
       (\<exists>len. py_len ob = Inr len \<and> partsList i = base @ map (\<lambda>j. IntK (int j)) [0..<len])"
    and o: "cls \<noteq> DictionaryInspector \<and> cls \<noteq> SequenceInspector \<longrightarrow> partsList i = base"
    by (rule initializePartsList_cases)
  have sb: "mset base = mset names"
    "list_all is_int_key names \<or> list_all is_str_key names \<longrightarrow> sorted_wrt key_le base"
    "no_descent names \<longrightarrow> base = names"
    using py_sorted_mset [OF nb(2)] py_sorted_spec [OF nb(2)] py_sorted_unchanged [OF nb(2)]
    by blast+
  have d': "cls = DictionaryInspector \<longrightarrow>
           (\<exists>ks sks. py_iter ob = Inr ks
              \<and> mset sks = mset ks
              \<and> (list_all is_int_key ks \<or> list_all is_str_key ks \<longrightarrow> sorted_wrt key_le sks)
              \<and> (no_descent ks \<longrightarrow> sks = ks)
              \<and> partsList i = base @ sks)"
  proof
    assume "cls = DictionaryInspector"
    with d obtain ks sks where k: "py_iter ob = Inr ks" "py_sorted ks = Inr sks"
      "partsList i = base @ sks" by blast
    have "mset sks = mset ks"
      "list_all is_int_key ks \<or> list_all is_str_key ks \<longrightarrow> sorted_wrt key_le sks"
      "no_descent ks \<longrightarrow> sks = ks"
      using py_sorted_mset [OF k(2)] py_sorted_spec [OF k(2)] py_sorted_unchanged [OF k(2)]
      by blast+
    with k(1,3) show "\<exists>ks sks. py_iter ob = Inr ks
              \<and> mset sks = mset ks
              \<and> (list_all is_int_key ks \<or> list_all is_str_key ks \<longrightarrow> sorted_wrt key_le sks)
              \<and> (no_descent ks \<longrightarrow> sks = ks)
              \<and> partsList i = base @ sks" by blast
  qed
  have fixed: "\<forall>n. partsList (fst (partNumber i n)) = partsList i
             \<and> partNames (fst (partNumber i n)) = partNames i"
    by (simp add: partNumber_fst)
  from nb(1) sb d' s o f(2) fixed show ?thesis by blast
qed

theorem parts_fixed_at_construction_witness:
  "Inspector_init DictionaryInspector ex_dict = Inr ex_dict_inspector
   \<and> partsList ex_dict_inspector = [StrK ''keys''] @ [StrK ''a'', StrK ''b'']
   \<and> partNames ex_dict_inspector = [''up'', ''keys'', ''a'', ''b'']
   \<and> partsList (fst (partNumber ex_dict_inspector 3)) = [StrK ''keys'', StrK ''a'', StrK ''b'']
   \<and> Inspector_init SequenceInspector ex_list = Inr ex_list_inspector
   \<and> partsList ex_list_inspector = [StrK ''append''] @ [IntK 0, IntK 1, IntK 2]
   \<and> partNames ex_list_inspector = [''up'', ''append'', ''0'', ''1'', ''2'']
   \<and> Inspector_init Inspector ex_complex = Inr ex_complex_inspector
   \<and> partsList ex_complex_inspector = [StrK ''imag'', StrK ''real'']
   \<and> partNames ex_complex_inspector = [''up'', ''imag'', ''real'']"
proof -
  note d = parts_fixed_at_construction [OF example_inits(1)]
  note l = parts_fixed_at_construction [OF example_inits(2)]
  note c = parts_fixed_at_construction [OF example_inits(3)]
  have nd: "namedParts DictionaryInspector ex_dict = Inr [StrK ''keys'']"
    "py_iter ex_dict = Inr [StrK ''b'', StrK ''a'']"
    by (simp_all add: namedParts_def py_iter_def ex_dict_def)
  have nl: "namedParts SequenceInspector ex_list = Inr [StrK ''append'']"
    "py_len ex_list = Inr 3"
    by (simp_all add: namedParts_def py_len_def ex_list_def)
  have nc: "namedParts Inspector ex_complex = Inr [StrK ''imag'', StrK ''real'']"
    by (simp add: namedParts_def ex_complex_def)
  have two: "sks = [StrK ''a'', StrK ''b'']"
    if "mset sks = mset [StrK ''b'', StrK ''a'']" "sorted_wrt key_le sks" for sks
  proof -
    from that(1) have len: "length sks = 2" by (metis length_Cons list.size(3) numeral_2_eq_2 size_mset)
    then obtain x y where xy: "sks = [x, y]"
      by (cases sks; cases "tl sks") auto
    from that(1) have "set sks = {StrK ''b'', StrK ''a''}" by (metis list.simps(15) empty_set set_mset_mset)
    with xy that(2) show ?thesis by (auto simp: doubleton_eq_iff)
  qed
  from d obtain base sks where sks: "mset sks = mset [StrK ''b'', StrK ''a'']"
    "sorted_wrt key_le sks" "partsList ex_dict_inspector = base @ sks"
    and base: "mset base = mset [StrK ''keys'']"
    by (auto simp: nd)
  from base have "base = [StrK ''keys'']" by (metis mset_eq_length length_Suc_conv length_0_conv
      list.size(3,4) mset.simps mset_single_iff_right)
  note sks = sks(1,2) sks(3) [unfolded this]
  from two [OF sks(1,2)] sks(3)
  have "partsList ex_dict_inspector = [StrK ''keys''] @ [StrK ''a'', StrK ''b'']" by simp
  moreover from d have "partNames ex_dict_inspector = ''up'' # map str_key (partsList ex_dict_inspector)"
    "partsList (fst (partNumber ex_dict_inspector 3)) = partsList ex_dict_inspector"
    by blast+
  moreover from l have "partsList ex_list_inspector = [StrK ''append''] @ [IntK 0, IntK 1, IntK 2]"
    by (auto simp: nl upt_rec)
  moreover from l have "partNames ex_list_inspector = ''up'' # map str_key (partsList ex_list_inspector)"
    by blast
  moreover from c have "partsList ex_complex_inspector = [StrK ''imag'', StrK ''real'']"
    by (auto simp: nc)
  moreover from c have "partNames ex_complex_inspector = ''up'' # map str_key (partsList ex_complex_inspector)"
    by blast
  ultimately show ?thesis
    by (simp add: example_inits str_int_def str_nat_digit)
qed

subsection \<open>The window: the top inspector and the stack\<close>

lemma stringForPartNumber_fst:
  "fst (stringForPartNumber self n) = self\<lparr>lastPartNumber := n\<rparr>"
proof -
  obtain s r where p: "partNumber self n = (s, r)" by (cases "partNumber self n")
  with partNumber_fst [of self n] have "s = self\<lparr>lastPartNumber := n\<rparr>" by simp
  with p show ?thesis
    by (cases r) (simp_all add: stringForPartNumber_def Let_def split: option.splits)
qed

lemma stringForPartNumber_error:
  "snd (partNumber self n) = Inl e \<Longrightarrow> snd (stringForPartNumber self n) = Inl e"
  by (cases "partNumber self n") (simp add: stringForPartNumber_def)


lemma partNumber_snd_lastPartNumber:
  "snd (partNumber (self\<lparr>lastPartNumber := m\<rparr>) n) = snd (partNumber self n)"
  by (cases "variant self")
    (simp_all add: partNumber_def Inspector_partNumber_def DictionaryInspector_partNumber_def
      SequenceInspector_partNumber_def privatePartNumber_def Let_def split: sum.splits)

lemma stringForPartNumber_snd_lastPartNumber:
  "snd (stringForPartNumber (self\<lparr>lastPartNumber := m\<rparr>) n) = snd (stringForPartNumber self n)"
proof -
  obtain s r where p: "partNumber self n = (s, r)" by (cases "partNumber self n")
  obtain s' r' where p': "partNumber (self\<lparr>lastPartNumber := m\<rparr>) n = (s', r')"
    by (cases "partNumber (self\<lparr>lastPartNumber := m\<rparr>) n")
  from partNumber_snd_lastPartNumber [where self = self and m = m and n = n] p p' have "r' = r" by simp
  with p p' show ?thesis
    by (cases r) (simp_all add: stringForPartNumber_def Let_def split: option.splits)
qed

lemma title_lastPartNumber: "title (self\<lparr>lastPartNumber := m\<rparr>) = title self"
  by (cases "variant self") (simp_all add: title_def split: sum.splits option.splits)

lemma topInspector_nonempty:
  "inspectors w \<noteq> [] \<Longrightarrow> topInspector w = Inr (last (inspectors w))"
  by (simp add: topInspector_def py_index_def Let_def last_conv_nth nat_diff_distrib')

lemma topInspector_empty: "inspectors w = [] \<Longrightarrow> topInspector w = Inl IndexError"
  by (simp add: topInspector_def py_index_def)

lemma inspectors_storeTop:
  "inspectors (storeTop w i) = (inspectors w)[length (inspectors w) - 1 := i]"
  by (simp add: storeTop_def)

lemma storeTop_fields:
  "top_title (storeTop w i) = top_title w"
  "listWidget (storeTop w i) = listWidget w"
  "textWidget (storeTop w i) = textWidget w"
  "commandWidget (storeTop w i) = commandWidget w"
  by (simp_all add: storeTop_def)

lemma last_storeTop: "inspectors w \<noteq> [] \<Longrightarrow> last (inspectors (storeTop w i)) = i"
  by (simp add: storeTop_def last_conv_nth)

lemma storeTop_same:
  "inspectors w \<noteq> [] \<Longrightarrow> storeTop w (last (inspectors w)) = w"
  by (simp add: storeTop_def last_conv_nth)

lemma same_inspectors_refl [simp]: "same_inspectors xs xs"
  by (simp add: same_inspectors_def)

lemma same_inspectors_length: "same_inspectors xs ys \<Longrightarrow> length xs = length ys"
  unfolding same_inspectors_def by (rule map_eq_imp_length_eq)

lemma same_inspectors_trans:
  "same_inspectors xs ys \<Longrightarrow> same_inspectors ys zs \<Longrightarrow> same_inspectors xs zs"
  by (simp add: same_inspectors_def)

lemma same_inspectors_storeTop:
  assumes "inspectors w \<noteq> []"
  shows "same_inspectors (inspectors (storeTop w ((last (inspectors w))\<lparr>lastPartNumber := n\<rparr>)))
     (inspectors w)"
proof -
  have "map forget_selected ((inspectors w)[length (inspectors w) - 1 :=
      (last (inspectors w))\<lparr>lastPartNumber := n\<rparr>]) = map forget_selected (inspectors w)"
    using assms
    by (simp add: map_update forget_selected_def last_conv_nth list_update_same_conv)
  then show ?thesis by (simp add: same_inspectors_def inspectors_storeTop)
qed

subsection \<open>What the refresh does\<close>

lemma setTitle_nonempty:
  assumes "inspectors w \<noteq> []"
  shows "setTitle w =
     (case title (last (inspectors w)) of
        Inl e \<Rightarrow> (w, Inl e)
      | Inr t \<Rightarrow> (w\<lparr>top_title := window_title t\<rparr>, Inr ()))"
  by (simp add: setTitle_def topInspector_nonempty [OF assms])

lemma inspectors_setTitle: "inspectors (fst (setTitle w)) = inspectors w"
  by (simp add: setTitle_def split: sum.splits)

lemma fold_lb_insert_end:
  "fold lb_insert_end names lb = lb\<lparr>entries := entries lb @ names\<rparr>"
  by (induction names arbitrary: lb) (simp_all add: lb_insert_end_def)

lemma fillList_nonempty:
  assumes "inspectors w \<noteq> []"
  shows "fillList w =
     (w\<lparr>listWidget := \<lparr>entries = partNames (last (inspectors w)), selection = []\<rparr>\<rparr>, Inr ())"
proof -
  have "topInspector (w\<lparr>listWidget := lb_delete_all (listWidget w)\<rparr>)
      = Inr (last (inspectors w))"
    using assms by (simp add: topInspector_nonempty)
  then show ?thesis
    by (simp add: fillList_def Let_def fold_lb_insert_end lb_delete_all_def lb_select_clear_def)
qed

lemma inspectors_fillList: "inspectors (fst (fillList w)) = inspectors w"
  by (simp add: fillList_def Let_def split: sum.splits)

lemma listSelectionChanged_nonempty:
  assumes "inspectors w \<noteq> []"
  shows "listSelectionChanged w =
     (let n = (case selectedIndex w of None \<Rightarrow> 0 | Some i \<Rightarrow> i);
          cur = (last (inspectors w))\<lparr>lastPartNumber := n\<rparr>
      in case snd (stringForPartNumber (last (inspectors w)) n) of
           Inl e \<Rightarrow> (storeTop w cur, Inl e)
         | Inr s \<Rightarrow> ((storeTop w cur)\<lparr>textWidget := s\<rparr>, Inr ()))"
proof -
  define n where "n = (case selectedIndex w of None \<Rightarrow> 0 | Some i \<Rightarrow> i)"
  obtain c r where sr: "stringForPartNumber (last (inspectors w)) n = (c, r)"
    by (cases "stringForPartNumber (last (inspectors w)) n")
  with stringForPartNumber_fst [of "last (inspectors w)" n]
  have c: "c = (last (inspectors w))\<lparr>lastPartNumber := n\<rparr>" by simp
  show ?thesis
    using sr c
    by (cases r)
      (simp_all add: listSelectionChanged_def Let_def topInspector_nonempty [OF assms] n_def)
qed

lemma listSelectionChanged_empty:
  "inspectors w = [] \<Longrightarrow> listSelectionChanged w = (w, Inl IndexError)"
  by (simp add: listSelectionChanged_def Let_def topInspector_empty)

lemma same_inspectors_listSelectionChanged:
  "same_inspectors (inspectors (fst (listSelectionChanged w))) (inspectors w)"
proof (cases "inspectors w = []")
  case True
  then show ?thesis by (simp add: listSelectionChanged_empty)
next
  case False
  from same_inspectors_storeTop [OF False] show ?thesis
    by (simp add: listSelectionChanged_nonempty [OF False] Let_def inspectors_storeTop
        split: sum.splits)
qed


lemma update_nonempty:
  assumes "inspectors w \<noteq> []"
  shows "update w =
     (case title (last (inspectors w)) of
        Inl e \<Rightarrow> (w, Inl e)
      | Inr t \<Rightarrow>
          listSelectionChanged
            (w\<lparr>top_title := window_title t,
               listWidget :=
                 lb_select_set (lastPartNumber (last (inspectors w)))
                   \<lparr>entries = partNames (last (inspectors w)), selection = []\<rparr>\<rparr>))"
proof (cases "title (last (inspectors w))")
  case (Inl e)
  then show ?thesis by (simp add: update_def setTitle_nonempty [OF assms])
next
  case (Inr t)
  let ?w1 = "w\<lparr>top_title := window_title t\<rparr>"
  have 1: "setTitle w = (?w1, Inr ())" by (simp add: setTitle_nonempty [OF assms] Inr)
  have ne: "inspectors ?w1 \<noteq> []" using assms by simp
  let ?w2 = "?w1\<lparr>listWidget := \<lparr>entries = partNames (last (inspectors w)), selection = []\<rparr>\<rparr>"
  have 2: "fillList ?w1 = (?w2, Inr ())" using fillList_nonempty [OF ne] by simp
  have 3: "topInspector ?w2 = Inr (last (inspectors w))"
    using assms by (simp add: topInspector_nonempty)
  show ?thesis
    by (simp add: update_def 1 2 3 Inr lb_select_clear_def)
qed

lemma update_empty: "inspectors w = [] \<Longrightarrow> update w = (w, Inl IndexError)"
  by (simp add: update_def setTitle_def topInspector_empty)

lemma same_inspectors_update:
  "same_inspectors (inspectors (fst (update w))) (inspectors w)"
proof (cases "inspectors w = []")
  case True
  then show ?thesis by (simp add: update_empty)
next
  case False
  show ?thesis
  proof (cases "title (last (inspectors w))")
    case (Inl e)
    then show ?thesis by (simp add: update_nonempty [OF False])
  next
    case (Inr t)
    have "same_inspectors (inspectors (fst (listSelectionChanged
            (w\<lparr>top_title := window_title t,
               listWidget :=
                 lb_select_set (lastPartNumber (last (inspectors w)))
                   \<lparr>entries = partNames (last (inspectors w)), selection = []\<rparr>\<rparr>))))
          (inspectors w)"
      using same_inspectors_listSelectionChanged
        [of "w\<lparr>top_title := window_title t,
               listWidget :=
                 lb_select_set (lastPartNumber (last (inspectors w)))
                   \<lparr>entries = partNames (last (inspectors w)), selection = []\<rparr>\<rparr>"]
      by simp
    then show ?thesis by (simp add: update_nonempty [OF False] Inr)
  qed
qed


lemma lb_select_set_in_range:
  assumes "0 \<le> k" and "k < int (length names)"
  shows "lb_select_set k \<lparr>entries = names, selection = []\<rparr> = \<lparr>entries = names, selection = [k]\<rparr>"
  using assms by (simp add: lb_select_set_def)


subsection \<open>Pop, dive and inspect\<close>

lemma pop_shallow: "length (inspectors w) \<le> 1 \<Longrightarrow> pop w = (w, Inr ())"
  by (simp add: pop_def)

lemma pop_deep:
  "1 < length (inspectors w) \<Longrightarrow> pop w = update (w\<lparr>inspectors := butlast (inspectors w)\<rparr>)"
  by (simp add: pop_def)

lemma same_inspectors_pop:
  assumes "1 < length (inspectors w)"
  shows "same_inspectors (inspectors (fst (pop w))) (butlast (inspectors w))"
  using same_inspectors_update [of "w\<lparr>inspectors := butlast (inspectors w)\<rparr>"]
  by (simp add: pop_deep [OF assms])

lemma length_pop:
  "length (inspectors (fst (pop w))) =
     (if 1 < length (inspectors w) then length (inspectors w) - 1 else length (inspectors w))"
proof (cases "1 < length (inspectors w)")
  case True
  from same_inspectors_length [OF same_inspectors_pop [OF True]] True show ?thesis by simp
next
  case False
  then show ?thesis by (simp add: pop_def)
qed

lemma inspectorForSelectedPart_none:
  "selectedIndex w = None \<Longrightarrow> inspectorForSelectedPart w = (w, [], Inr None)"
  by (simp add: inspectorForSelectedPart_def)

lemma inspectorForSelectedPart_empty:
  "selectedIndex w = Some n \<Longrightarrow> inspectors w = [] \<Longrightarrow>
     inspectorForSelectedPart w = (w, [], Inl IndexError)"
  by (simp add: inspectorForSelectedPart_def topInspector_empty)

lemma inspectorForSelectedPart_some:
  assumes sel: "selectedIndex w = Some n" and ne: "inspectors w \<noteq> []"
  shows "inspectorForSelectedPart w =
     (let w1 = storeTop w ((last (inspectors w))\<lparr>lastPartNumber := n\<rparr>)
      in case snd (partNumber (last (inspectors w)) n) of
           Inl e \<Rightarrow> (w1, [], Inl e)
         | Inr part \<Rightarrow>
             (case inspectorFor part of
                (out, Inl e) \<Rightarrow> (w1, out, Inl e)
              | (out, Inr i) \<Rightarrow> (w1, out, Inr (Some i))))"
proof -
  let ?c = "(last (inspectors w))\<lparr>lastPartNumber := n\<rparr>"
  obtain r where p: "partNumber (last (inspectors w)) n = (?c, r)"
    using partNumber_fst [of "last (inspectors w)" n]
    by (cases "partNumber (last (inspectors w)) n") simp
  have ne1: "inspectors (storeTop w ?c) \<noteq> []"
    using ne by (simp add: inspectors_storeTop)
  have t1: "topInspector (storeTop w ?c) = Inr (last (inspectors (storeTop w ?c)))"
    by (rule topInspector_nonempty [OF ne1])
  show ?thesis
    by (cases r)
      (simp_all add: inspectorForSelectedPart_def sel topInspector_nonempty [OF ne] p t1
        Let_def split: prod.splits sum.splits)
qed

text \<open>
  Finding the inspector for the selected part leaves the widgets as they are and the
  stack with the same inspectors.
\<close>

lemma inspectorForSelectedPart_frame:
  "same_inspectors (inspectors (fst (inspectorForSelectedPart w))) (inspectors w)"
  "top_title (fst (inspectorForSelectedPart w)) = top_title w"
  "listWidget (fst (inspectorForSelectedPart w)) = listWidget w"
  "textWidget (fst (inspectorForSelectedPart w)) = textWidget w"
  "commandWidget (fst (inspectorForSelectedPart w)) = commandWidget w"
proof -
  have "same_inspectors (inspectors (fst (inspectorForSelectedPart w))) (inspectors w)
    \<and> top_title (fst (inspectorForSelectedPart w)) = top_title w
    \<and> listWidget (fst (inspectorForSelectedPart w)) = listWidget w
    \<and> textWidget (fst (inspectorForSelectedPart w)) = textWidget w
    \<and> commandWidget (fst (inspectorForSelectedPart w)) = commandWidget w"
  proof (cases "selectedIndex w")
    case None
    then show ?thesis by (simp add: inspectorForSelectedPart_none)
  next
    case (Some n)
    show ?thesis
    proof (cases "inspectors w = []")
      case True
      with Some show ?thesis by (simp add: inspectorForSelectedPart_empty)
    next
      case False
      have "fst (inspectorForSelectedPart w)
          = storeTop w ((last (inspectors w))\<lparr>lastPartNumber := n\<rparr>)"
        by (simp add: inspectorForSelectedPart_some [OF Some False] Let_def
            split: sum.splits prod.splits)
      with same_inspectors_storeTop [OF False, of n] show ?thesis
        by (simp add: storeTop_fields)
    qed
  qed
  then show "same_inspectors (inspectors (fst (inspectorForSelectedPart w))) (inspectors w)"
    "top_title (fst (inspectorForSelectedPart w)) = top_title w"
    "listWidget (fst (inspectorForSelectedPart w)) = listWidget w"
    "textWidget (fst (inspectorForSelectedPart w)) = textWidget w"
    "commandWidget (fst (inspectorForSelectedPart w)) = commandWidget w"
    by simp_all
qed


lemma fst_inspect: "fst (inspect w) = fst (inspectorForSelectedPart w)"
  by (simp add: inspect_def split: prod.splits sum.splits option.splits)

lemma same_inspectors_append:
  "same_inspectors xs ys \<Longrightarrow> same_inspectors (xs @ [i]) (ys @ [i])"
  by (simp add: same_inspectors_def)

lemma dive_stack:
  "same_inspectors (inspectors (fst (dive w))) (inspectors w)
   \<or> (\<exists>i. same_inspectors (inspectors (fst (dive w))) (inspectors w @ [i]))"
proof -
  obtain w1 out r where i: "inspectorForSelectedPart w = (w1, out, r)"
    by (cases "inspectorForSelectedPart w")
  with inspectorForSelectedPart_frame(1) [of w]
  have s: "same_inspectors (inspectors w1) (inspectors w)" by simp
  show ?thesis
  proof (cases r)
    case (Inl e)
    with i s show ?thesis by (simp add: dive_def)
  next
    case (Inr o1)
    show ?thesis
    proof (cases o1)
      case None
      with i s Inr show ?thesis by (simp add: dive_def)
    next
      case (Some ni)
      have "same_inspectors
          (inspectors (fst (update (w1\<lparr>inspectors := inspectors w1 @ [ni]\<rparr>))))
          (inspectors w1 @ [ni])"
        using same_inspectors_update [of "w1\<lparr>inspectors := inspectors w1 @ [ni]\<rparr>"] by simp
      moreover have "same_inspectors (inspectors w1 @ [ni]) (inspectors w @ [ni])"
        using s by (rule same_inspectors_append)
      ultimately have "same_inspectors
          (inspectors (fst (update (w1\<lparr>inspectors := inspectors w1 @ [ni]\<rparr>))))
          (inspectors w @ [ni])"
        by (rule same_inspectors_trans)
      with i Inr Some show ?thesis
        by (auto simp: dive_def split: prod.splits)
    qed
  qed
qed

lemma length_dive:
  "length (inspectors (fst (dive w))) = length (inspectors w)
   \<or> length (inspectors (fst (dive w))) = length (inspectors w) + 1"
  using dive_stack [of w] by (auto dest: same_inspectors_length)

lemma length_update: "length (inspectors (fst (update w))) = length (inspectors w)"
  using same_inspectors_update by (rule same_inspectors_length)

lemma length_listSelectionChanged:
  "length (inspectors (fst (listSelectionChanged w))) = length (inspectors w)"
  using same_inspectors_listSelectionChanged by (rule same_inspectors_length)

lemma length_select_entry:
  "length (inspectors (fst (select_entry k w))) = length (inspectors w)"
  by (simp add: select_entry_def length_listSelectionChanged)

lemma length_inspect: "length (inspectors (fst (inspect w))) = length (inspectors w)"
  using inspectorForSelectedPart_frame(1) [of w]
  by (simp add: fst_inspect same_inspectors_length)

lemma length_popOrDive:
  "length (inspectors (fst (popOrDive w))) = length (inspectors w)
   \<or> length (inspectors (fst (popOrDive w))) = length (inspectors w) + 1
   \<or> (1 < length (inspectors w)
       \<and> length (inspectors (fst (popOrDive w))) = length (inspectors w) - 1)"
proof (cases "selectedIndex w = Some 0")
  case True
  then have "fst (popOrDive w) = fst (pop w)"
    by (simp add: popOrDive_def split: prod.splits)
  then show ?thesis by (simp add: length_pop)
next
  case False
  then have "popOrDive w = dive w" by (simp add: popOrDive_def)
  with length_dive [of w] show ?thesis by auto
qed

subsection \<open>The example windows\<close>

lemmas window_defs = update_def setTitle_def fillList_def listSelectionChanged_def
  topInspector_def storeTop_def selectedIndex_def stringForPartNumber_def
  lb_delete_all_def lb_insert_end_def lb_select_clear_def lb_select_set_def
  py_index_def window_title_def title_def

lemmas partNumber_defs = partNumber_def Inspector_partNumber_def
  DictionaryInspector_partNumber_def SequenceInspector_partNumber_def privatePartNumber_def
  py_contains_def py_getitem_def

lemma inspectorFor_int: "inspectorFor (py_int 1) = ([], Inr ex_int_inspector)"
proof -
  have "typeName_of (py_int 1) = ''IntType''"
    by (simp add: typeName_of_def type_name_def char_defs py_int_def)
  moreover have "initializeInspectorMap ''IntType'' = Some ''Inspector''"
    by (simp add: registry_defs)
  ultimately have "inspectorFor (py_int 1) = ([], Inspector_init Inspector (py_int 1))"
    by (simp add: inspectorFor_registered globals_rows)
  moreover have "Inspector_init Inspector (py_int 1) = Inr ex_int_inspector"
    by (simp add: init_defs ex_int_inspector_def py_int_def)
  ultimately show ?thesis by simp
qed

lemma ex_open: "open_window (InspectorWindow_init ex_dict_inspector) = (ex_opened, Inr ())"
  by (simp add: open_window_def InspectorWindow_init_def window_defs partNumber_defs Let_def
      ex_dict_inspector_def ex_opened_def ex_dict_def type_name_def char_defs)

lemma ex_inspect_object: "inspect_object ex_dict = ([], Inr ex_opened)"
  by (simp add: inspect_object_def example_inspectors ex_open)

lemma ex_select: "select_entry 2 ex_opened = (ex_window, Inr ())"
  by (simp add: select_entry_def window_defs partNumber_defs Let_def
      ex_dict_inspector_def ex_opened_def ex_window_def ex_dict_def py_int_def
      str_int_def str_nat_digit)

lemma ex_part: "partNumber (ex_dict_inspector\<lparr>lastPartNumber := 2\<rparr>) 2
    = (ex_dict_inspector\<lparr>lastPartNumber := 2\<rparr>, Inr (py_int 1))"
  by (simp add: partNumber_defs Let_def ex_dict_inspector_def ex_dict_def py_index_def)

lemma ex_inspectorForSelectedPart:
  "inspectorForSelectedPart ex_window = (ex_window, [], Inr (Some ex_int_inspector))"
  by (simp add: inspectorForSelectedPart_def selectedIndex_def topInspector_def py_index_def
      storeTop_def ex_window_def ex_part inspectorFor_int Let_def)

lemma ex_dive_update:
  "update (ex_window\<lparr>inspectors := inspectors ex_window @ [ex_int_inspector]\<rparr>)
     = (ex_dived, Inr ())"
  by (simp add: window_defs partNumber_defs Let_def ex_window_def ex_dived_def
      ex_int_inspector_def type_name_def char_defs py_int_def str_int_def str_nat_digit)

lemma ex_dive: "dive ex_window = (ex_dived, [], Inr ())"
  by (simp add: dive_def ex_inspectorForSelectedPart ex_dive_update)



lemma example_stacks:
  "inspectors ex_opened = [ex_dict_inspector]"
  "inspectors ex_window = [ex_dict_inspector\<lparr>lastPartNumber := 2\<rparr>]"
  "inspectors ex_dived = [ex_dict_inspector\<lparr>lastPartNumber := 2\<rparr>, ex_int_inspector]"
  "inspectors ex_spawned = [ex_int_inspector]"
  by (simp_all add: ex_opened_def ex_window_def ex_dived_def ex_spawned_def)

lemma ex_pop_update:
  "update (ex_dived\<lparr>inspectors := butlast (inspectors ex_dived)\<rparr>) = (ex_window, Inr ())"
  by (simp add: window_defs partNumber_defs Let_def ex_window_def ex_dived_def
      ex_dict_inspector_def ex_dict_def type_name_def char_defs py_int_def str_int_def
      str_nat_digit)

lemma ex_pop: "pop ex_dived = (ex_window, Inr ())"
proof -
  have "1 < length (inspectors ex_dived)" by (simp add: example_stacks)
  then show ?thesis by (simp add: pop_deep ex_pop_update)
qed

lemma ex_selectedPart:
  "selectedPart (ex_dict_inspector\<lparr>lastPartNumber := 2\<rparr>)
     = (ex_dict_inspector\<lparr>lastPartNumber := 2\<rparr>, Inr (py_int 1))"
  using ex_part by (simp add: selectedPart_def)

subsection \<open>Evaluating a command line\<close>

lemma selectedPart_same: "fst (selectedPart cur) = cur"
  by (simp add: selectedPart_def partNumber_fst)

lemma evalCommand_cases:
  assumes c: "last_command (commandWidget w) = Some command" "command \<noteq> []"
    and ne: "inspectors w \<noteq> []"
  shows "evalCommand ev w =
     (case snd (selectedPart (last (inspectors w))) of
        Inl e \<Rightarrow> (w, Inl e)
      | Inr this \<Rightarrow>
          (case ev command this (object (last (inspectors w))) of
             Inl e \<Rightarrow> (w, Inl e)
           | Inr r \<Rightarrow>
               (w\<lparr>commandWidget := commandWidget w @ repr_of r @ [CHR 0x0A] @ ''>>> ''\<rparr>,
                Inr ())))"
proof -
  obtain r where sp: "selectedPart (last (inspectors w)) = (last (inspectors w), r)"
    using selectedPart_same [of "last (inspectors w)"]
    by (cases "selectedPart (last (inspectors w))") simp
  show ?thesis
    by (cases r)
      (simp_all add: evalCommand_def c sp topInspector_nonempty [OF ne] storeTop_same [OF ne]
        split: sum.splits)
qed

lemma evalCommand_idle:
  "last_command (commandWidget w) = None \<or> last_command (commandWidget w) = Some []
     \<Longrightarrow> evalCommand ev w = (w, Inr ())"
  by (auto simp: evalCommand_def)

lemma evalCommand_empty_stack:
  "last_command (commandWidget w) = Some command \<Longrightarrow> command \<noteq> [] \<Longrightarrow> inspectors w = []
     \<Longrightarrow> evalCommand ev w = (w, Inl IndexError)"
  by (simp add: evalCommand_def topInspector_empty)

lemma evalCommand_frame:
  "inspectors (fst (evalCommand ev w)) = inspectors w
   \<and> top_title (fst (evalCommand ev w)) = top_title w
   \<and> listWidget (fst (evalCommand ev w)) = listWidget w
   \<and> textWidget (fst (evalCommand ev w)) = textWidget w"
proof (cases "last_command (commandWidget w)")
  case None
  then show ?thesis by (simp add: evalCommand_idle)
next
  case (Some command)
  show ?thesis
  proof (cases "command = []")
    case True
    with Some show ?thesis by (simp add: evalCommand_idle)
  next
    case False
    show ?thesis
    proof (cases "inspectors w = []")
      case True
      with Some False show ?thesis by (simp add: evalCommand_empty_stack)
    next
      case ne: False
      show ?thesis
        by (simp add: evalCommand_cases [OF Some False ne] split: sum.splits)
    qed
  qed
qed

lemma evalCommand_error:
  assumes "snd (evalCommand ev w) = Inl e"
  shows "fst (evalCommand ev w) = w"
proof (cases "last_command (commandWidget w)")
  case None
  then show ?thesis by (simp add: evalCommand_idle)
next
  case (Some command)
  show ?thesis
  proof (cases "command = []")
    case True
    with Some show ?thesis by (simp add: evalCommand_idle)
  next
    case False
    show ?thesis
    proof (cases "inspectors w = []")
      case True
      with Some False show ?thesis by (simp add: evalCommand_empty_stack)
    next
      case ne: False
      from assms show ?thesis
        by (simp add: evalCommand_cases [OF Some False ne] split: sum.splits)
    qed
  qed
qed

subsection \<open>The pop after a dive that returns\<close>

lemma butlast_update_stack:
  "butlast (inspectors (fst (update w))) = butlast (inspectors w)"
proof (cases "inspectors w = []")
  case True
  then show ?thesis by (simp add: update_empty)
next
  case ne: False
  show ?thesis
  proof (cases "title (last (inspectors w))")
    case (Inl e)
    then show ?thesis by (simp add: update_nonempty [OF ne])
  next
    case (Inr t)
    let ?v = "w\<lparr>top_title := window_title t,
             listWidget :=
               lb_select_set (lastPartNumber (last (inspectors w)))
                 \<lparr>entries = partNames (last (inspectors w)), selection = []\<rparr>\<rparr>"
    have nv: "inspectors ?v \<noteq> []" using ne by simp
    have "butlast (inspectors (fst (listSelectionChanged ?v))) = butlast (inspectors ?v)"
      by (simp add: listSelectionChanged_nonempty [OF nv] Let_def inspectors_storeTop
          butlast_list_update split: sum.splits)
    then show ?thesis by (simp add: update_nonempty [OF ne] Inr)
  qed
qed



subsection \<open>The states of a window\<close>

lemma titled_iff: "titled i \<longleftrightarrow> (\<exists>t. title i = Inr t)"
  by (cases "title i") (simp_all add: titled_def)

lemma titled_lastPartNumber [simp]: "titled (i\<lparr>lastPartNumber := n\<rparr>) = titled i"
  by (simp add: titled_def title_lastPartNumber)

lemma settled_record:
  assumes "settled x" and "titled x \<Longrightarrow> 0 \<le> n \<and> n < int (length (partNames x))"
  shows "settled (x\<lparr>lastPartNumber := n\<rparr>)"
  using assms by (simp add: settled_def recorded_in_range_def)

lemma list_all_update: "list_all P xs \<Longrightarrow> P x \<Longrightarrow> list_all P (xs[i := x])"
  using set_update_subset_insert [of xs i x] by (auto simp: list_all_iff)

lemma listedI:
  assumes "inspectors w \<noteq> []" and "list_all settled (inspectors w)"
    and "selection_ok (listWidget w)"
    and "\<And>t. title (last (inspectors w)) = Inr t \<Longrightarrow>
      top_title w = window_title t \<and> entries (listWidget w) = partNames (last (inspectors w))"
  shows "listed w"
  using assms unfolding listed_def by (cases "title (last (inspectors w))") simp_all

lemma listedD:
  assumes "listed w"
  shows "inspectors w \<noteq> []" and "list_all settled (inspectors w)"
    and "selection_ok (listWidget w)"
    and "title (last (inspectors w)) = Inr t \<Longrightarrow> top_title w = window_title t"
    and "title (last (inspectors w)) = Inr t \<Longrightarrow>
      entries (listWidget w) = partNames (last (inspectors w))"
  using assms unfolding listed_def by simp_all

lemma coherentI:
  assumes "listed w"
    and "\<And>t k. title (last (inspectors w)) = Inr t \<Longrightarrow> selectedIndex w = Some k \<Longrightarrow>
      lastPartNumber (last (inspectors w)) = k"
    and "\<And>t k s. title (last (inspectors w)) = Inr t \<Longrightarrow> selectedIndex w = Some k \<Longrightarrow>
      snd (stringForPartNumber (last (inspectors w)) k) = Inr s \<Longrightarrow> textWidget w = s"
  shows "coherent w"
  using assms unfolding coherent_def by (auto split: sum.splits option.splits)

lemma coherentD:
  assumes "coherent w"
  shows "listed w"
    and "title (last (inspectors w)) = Inr t \<Longrightarrow> selectedIndex w = Some k \<Longrightarrow>
      lastPartNumber (last (inspectors w)) = k"
    and "title (last (inspectors w)) = Inr t \<Longrightarrow> selectedIndex w = Some k \<Longrightarrow>
      snd (stringForPartNumber (last (inspectors w)) k) = Inr s \<Longrightarrow> textWidget w = s"
  using assms unfolding coherent_def by (auto split: sum.splits option.splits)

lemma listed_textWidget [simp]: "listed (w\<lparr>textWidget := s\<rparr>) = listed w"
  by (simp add: listed_def split: sum.splits)

lemma listed_commandWidget [simp]: "listed (w\<lparr>commandWidget := s\<rparr>) = listed w"
  by (simp add: listed_def split: sum.splits)

lemma selectedIndex_textWidget [simp]: "selectedIndex (w\<lparr>textWidget := s\<rparr>) = selectedIndex w"
  by (simp add: selectedIndex_def)

lemma selectedIndex_storeTop [simp]: "selectedIndex (storeTop w i) = selectedIndex w"
  by (simp add: selectedIndex_def storeTop_fields)

text \<open>The index that \<^verbatim>\<open>listSelectionChanged\<close> records is an entry of the list.\<close>

lemma listed_selected_index:
  assumes l: "listed v" and t: "titled (last (inspectors v))"
  shows "0 \<le> (case selectedIndex v of None \<Rightarrow> 0 | Some i \<Rightarrow> i)
     \<and> (case selectedIndex v of None \<Rightarrow> 0 | Some i \<Rightarrow> i) < int (length (entries (listWidget v)))"
proof (cases "selection (listWidget v)")
  case Nil
  from t obtain tt where tt: "title (last (inspectors v)) = Inr tt" by (auto simp: titled_iff)
  from listedD(1,2) [OF l] have "settled (last (inspectors v))" by (simp add: list_all_iff)
  with t have "recorded_in_range (last (inspectors v))" by (simp add: settled_def)
  then have "0 < length (partNames (last (inspectors v)))" by (auto simp: recorded_in_range_def)
  with listedD(5) [OF l tt] Nil show ?thesis by (simp add: selectedIndex_def)
next
  case (Cons k ks)
  with listedD(3) [OF l] show ?thesis by (simp add: selectedIndex_def selection_ok_def)
qed

lemma listed_record:
  assumes l: "listed v"
    and n: "titled (last (inspectors v)) \<Longrightarrow> 0 \<le> n \<and> n < int (length (entries (listWidget v)))"
  shows "listed (storeTop v ((last (inspectors v))\<lparr>lastPartNumber := n\<rparr>))"
proof (rule listedI)
  let ?cur = "(last (inspectors v))\<lparr>lastPartNumber := n\<rparr>"
  note ne = listedD(1) [OF l]
  show "inspectors (storeTop v ?cur) \<noteq> []" using ne by (simp add: inspectors_storeTop)
  have top: "settled (last (inspectors v))" using listedD(1,2) [OF l] by (simp add: list_all_iff)
  have "settled ?cur"
  proof (rule settled_record [OF top])
    assume t: "titled (last (inspectors v))"
    then obtain tt where "title (last (inspectors v)) = Inr tt" by (auto simp: titled_iff)
    from listedD(5) [OF l this] n [OF t]
    show "0 \<le> n \<and> n < int (length (partNames (last (inspectors v))))" by simp
  qed
  with listedD(2) [OF l] show "list_all settled (inspectors (storeTop v ?cur))"
    by (simp add: inspectors_storeTop list_all_update)
  show "selection_ok (listWidget (storeTop v ?cur))"
    using listedD(3) [OF l] by (simp add: storeTop_fields)
  fix t assume "title (last (inspectors (storeTop v ?cur))) = Inr t"
  then have t: "title (last (inspectors v)) = Inr t"
    by (simp add: last_storeTop [OF ne] title_lastPartNumber)
  from listedD(4,5) [OF l t]
  show "top_title (storeTop v ?cur) = window_title t
     \<and> entries (listWidget (storeTop v ?cur)) = partNames (last (inspectors (storeTop v ?cur)))"
    by (simp add: storeTop_fields last_storeTop [OF ne])
qed

lemma listSelectionChanged_coherent:
  assumes l: "listed v"
  shows "coherent (fst (listSelectionChanged v))"
proof -
  note ne = listedD(1) [OF l]
  define n where "n = (case selectedIndex v of None \<Rightarrow> 0 | Some i \<Rightarrow> i)"
  let ?top = "last (inspectors v)"
  let ?cur = "?top\<lparr>lastPartNumber := n\<rparr>"
  let ?v1 = "storeTop v ?cur"
  have l1: "listed ?v1"
    by (rule listed_record [OF l]) (use listed_selected_index [OF l] in \<open>simp add: n_def\<close>)
  have top1: "last (inspectors ?v1) = ?cur" by (rule last_storeTop [OF ne])
  have rec1: "lastPartNumber (last (inspectors ?v1)) = n" by (simp add: top1)
  have str1: "snd (stringForPartNumber (last (inspectors ?v1)) n) = snd (stringForPartNumber ?top n)"
    unfolding top1 by (rule stringForPartNumber_snd_lastPartNumber)
  have k: "k = n" if "selectedIndex ?v1 = Some k" for k using that by (simp add: n_def)
  show ?thesis
  proof (cases "snd (stringForPartNumber ?top n)")
    case (Inl e)
    then have r: "fst (listSelectionChanged v) = ?v1"
      by (simp add: listSelectionChanged_nonempty [OF ne] Let_def n_def)
    show ?thesis unfolding r
    proof (rule coherentI [OF l1])
      fix t k assume "selectedIndex ?v1 = Some k"
      from k [OF this] rec1 show "lastPartNumber (last (inspectors ?v1)) = k" by simp
    next
      fix t k s assume sel: "selectedIndex ?v1 = Some k"
        and s: "snd (stringForPartNumber (last (inspectors ?v1)) k) = Inr s"
      from s k [OF sel] have "snd (stringForPartNumber (last (inspectors ?v1)) n) = Inr s" by simp
      with str1 Inl show "textWidget ?v1 = s" by simp
    qed
  next
    case (Inr s)
    then have r: "fst (listSelectionChanged v) = ?v1\<lparr>textWidget := s\<rparr>"
      by (simp add: listSelectionChanged_nonempty [OF ne] Let_def n_def)
    let ?v2 = "?v1\<lparr>textWidget := s\<rparr>"
    have l2: "listed ?v2" using l1 by simp
    have top2: "last (inspectors ?v2) = last (inspectors ?v1)" by simp
    have sel2: "selectedIndex ?v2 = selectedIndex ?v1" by simp
    show ?thesis unfolding r
    proof (rule coherentI [OF l2])
      fix t k assume "selectedIndex ?v2 = Some k"
      then have "selectedIndex ?v1 = Some k" by (simp only: sel2)
      from k [OF this] rec1 show "lastPartNumber (last (inspectors ?v2)) = k"
        by (simp only: top2)
    next
      fix t k s' assume sel: "selectedIndex ?v2 = Some k"
        and s: "snd (stringForPartNumber (last (inspectors ?v2)) k) = Inr s'"
      from sel have "selectedIndex ?v1 = Some k" by (simp only: sel2)
      from k [OF this] s have "snd (stringForPartNumber (last (inspectors ?v1)) n) = Inr s'"
        by (simp only: top2)
      with str1 Inr have "s' = s" by simp
      then show "textWidget ?v2 = s'" by simp
    qed
  qed
qed

lemma Inspector_init_recorded:
  assumes "Inspector_init cls ob = Inr i"
  shows "recorded_in_range i"
  using Inspector_init_fields [OF assms] by (simp add: recorded_in_range_def)

lemma inspectorFor_recorded:
  assumes "inspectorFor ob = (out, Inr i)"
  shows "recorded_in_range i"
proof -
  from assms obtain cls where "Inspector_init cls ob = Inr i"
    by (auto simp: inspectorFor_def Let_def split: if_splits option.splits)
  then show ?thesis by (rule Inspector_init_recorded)
qed

lemma recorded_settled: "recorded_in_range i \<Longrightarrow> settled i"
  by (simp add: settled_def)

lemma selection_ok_lb_select_set:
  "selection_ok (lb_select_set p \<lparr>entries = names, selection = []\<rparr>)"
  by (simp add: selection_ok_def lb_select_set_def)

lemma entries_lb_select_set: "entries (lb_select_set p lb) = entries lb"
  by (simp add: lb_select_set_def)

text \<open>The refresh of a window, whatever the stack it is given, leaves a coherent window.\<close>

lemma update_coherent:
  assumes ne: "inspectors v \<noteq> []" and all: "list_all settled (inspectors v)"
    and sel: "selection_ok (listWidget v)"
  shows "coherent (fst (update v))"
proof (cases "title (last (inspectors v))")
  case (Inl e)
  then have u: "fst (update v) = v" by (simp add: update_nonempty [OF ne])
  have "listed v" by (rule listedI [OF ne all sel]) (simp add: Inl)
  then have "coherent v" by (rule coherentI) (simp_all add: Inl)
  with u show ?thesis by simp
next
  case (Inr t)
  let ?v3 = "v\<lparr>top_title := window_title t,
               listWidget :=
                 lb_select_set (lastPartNumber (last (inspectors v)))
                   \<lparr>entries = partNames (last (inspectors v)), selection = []\<rparr>\<rparr>"
  have u: "update v = listSelectionChanged ?v3" by (simp add: update_nonempty [OF ne] Inr)
  have "listed ?v3"
  proof (rule listedI)
    show "inspectors ?v3 \<noteq> []" using ne by simp
    show "list_all settled (inspectors ?v3)" using all by simp
    show "selection_ok (listWidget ?v3)" by (simp add: selection_ok_lb_select_set)
    fix t' assume "title (last (inspectors ?v3)) = Inr t'"
    with Inr have "t' = t" by simp
    then show "top_title ?v3 = window_title t'
      \<and> entries (listWidget ?v3) = partNames (last (inspectors ?v3))"
      by (simp add: entries_lb_select_set)
  qed
  then have "coherent (fst (listSelectionChanged ?v3))" by (rule listSelectionChanged_coherent)
  then show ?thesis by (simp only: u)
qed

text \<open>Coherence is a property of the stack, the title, the list and the text pane.\<close>

lemma coherent_cong:
  assumes "inspectors w' = inspectors w" and "top_title w' = top_title w"
    and "listWidget w' = listWidget w" and "textWidget w' = textWidget w"
  shows "coherent w' = coherent w"
proof -
  have s: "selectedIndex w' = selectedIndex w" using assms(3) by (simp add: selectedIndex_def)
  show ?thesis unfolding coherent_def listed_def s assms ..
qed

lemma coherent_nonempty: "coherent w \<Longrightarrow> inspectors w \<noteq> []"
  by (rule listedD(1) [OF coherentD(1)])

lemma coherent_record:
  assumes c: "coherent w" and sel: "selectedIndex w = Some n"
  shows "coherent (storeTop w ((last (inspectors w))\<lparr>lastPartNumber := n\<rparr>))"
proof (cases "title (last (inspectors w))")
  case (Inr t)
  note ne = listedD(1) [OF coherentD(1) [OF c]]
  from coherentD(2) [OF c Inr sel]
  have "(last (inspectors w))\<lparr>lastPartNumber := n\<rparr> = last (inspectors w)" by simp
  with c show ?thesis by (simp add: storeTop_same [OF ne])
next
  case (Inl e)
  note l = coherentD(1) [OF c]
  note ne = listedD(1) [OF l]
  let ?v1 = "storeTop w ((last (inspectors w))\<lparr>lastPartNumber := n\<rparr>)"
  have nt: "\<not> titled (last (inspectors w))" by (simp add: titled_def Inl)
  have l1: "listed ?v1" by (rule listed_record [OF l]) (simp add: nt)
  have t1: "title (last (inspectors ?v1)) = Inl e"
    by (simp add: last_storeTop [OF ne] title_lastPartNumber Inl)
  show ?thesis by (rule coherentI [OF l1]) (simp_all add: t1)
qed

lemma fst_inspectorForSelectedPart:
  assumes "inspectors w \<noteq> []"
  shows "fst (inspectorForSelectedPart w) =
     (case selectedIndex w of
        None \<Rightarrow> w
      | Some n \<Rightarrow> storeTop w ((last (inspectors w))\<lparr>lastPartNumber := n\<rparr>))"
proof (cases "selectedIndex w")
  case None
  then show ?thesis by (simp add: inspectorForSelectedPart_none)
next
  case (Some n)
  show ?thesis
    by (simp add: inspectorForSelectedPart_some [OF Some assms] Let_def Some
        split: sum.splits prod.splits)
qed

lemma inspectorForSelectedPart_coherent:
  assumes c: "coherent w"
  shows "coherent (fst (inspectorForSelectedPart w))"
proof -
  note ne = listedD(1) [OF coherentD(1) [OF c]]
  show ?thesis
  proof (cases "selectedIndex w")
    case None
    with c show ?thesis by (simp add: inspectorForSelectedPart_none)
  next
    case (Some n)
    from coherent_record [OF c Some] show ?thesis
      by (simp add: fst_inspectorForSelectedPart [OF ne] Some)
  qed
qed

lemma inspectorForSelectedPart_inspector:
  assumes "inspectorForSelectedPart w = (w1, out, Inr (Some i))"
  shows "recorded_in_range i"
proof -
  from assms obtain n where n: "selectedIndex w = Some n"
    by (cases "selectedIndex w") (auto simp: inspectorForSelectedPart_none)
  from assms n have ne: "inspectors w \<noteq> []"
    by (cases "inspectors w = []") (auto simp: inspectorForSelectedPart_empty)
  from assms obtain part out' where "inspectorFor part = (out', Inr i)"
    by (auto simp: inspectorForSelectedPart_some [OF n ne] Let_def
        split: sum.splits prod.splits)
  then show ?thesis by (rule inspectorFor_recorded)
qed

lemma dive_coherent:
  assumes c: "coherent w"
  shows "coherent (fst (dive w))"
proof -
  obtain w1 out r where i: "inspectorForSelectedPart w = (w1, out, r)"
    by (cases "inspectorForSelectedPart w")
  from inspectorForSelectedPart_coherent [OF c] i have c1: "coherent w1" by simp
  note l1 = coherentD(1) [OF c1]
  show ?thesis
  proof (cases r)
    case (Inl e)
    with i c1 show ?thesis by (simp add: dive_def)
  next
    case (Inr o1)
    show ?thesis
    proof (cases o1)
      case None
      with i Inr c1 show ?thesis by (simp add: dive_def)
    next
      case (Some ni)
      from i Inr Some have "recorded_in_range ni"
        by (simp add: inspectorForSelectedPart_inspector)
      then have "settled ni" by (rule recorded_settled)
      with listedD(2) [OF l1]
      have all: "list_all settled (inspectors (w1\<lparr>inspectors := inspectors w1 @ [ni]\<rparr>))"
        by simp
      have u: "coherent (fst (update (w1\<lparr>inspectors := inspectors w1 @ [ni]\<rparr>)))"
        by (rule update_coherent [OF _ all]) (use listedD(3) [OF l1] in simp_all)
      obtain w2 r2 where w2: "update (w1\<lparr>inspectors := inspectors w1 @ [ni]\<rparr>) = (w2, r2)"
        by (cases "update (w1\<lparr>inspectors := inspectors w1 @ [ni]\<rparr>)")
      with u have "coherent w2" by simp
      with i Inr Some w2 show ?thesis by (simp add: dive_def)
    qed
  qed
qed

lemma pop_coherent:
  assumes c: "coherent w"
  shows "coherent (fst (pop w))"
proof (cases "1 < length (inspectors w)")
  case False
  with c show ?thesis by (simp add: pop_def)
next
  case True
  note l = coherentD(1) [OF c]
  let ?v = "w\<lparr>inspectors := butlast (inspectors w)\<rparr>"
  have ne: "inspectors ?v \<noteq> []" using True by (cases "inspectors w" rule: rev_cases) auto
  have "set (butlast (inspectors w)) \<subseteq> set (inspectors w)" by (auto dest: in_set_butlastD)
  with listedD(2) [OF l] have all: "list_all settled (inspectors ?v)"
    by (auto simp: list_all_iff)
  have "coherent (fst (update ?v))"
    by (rule update_coherent [OF ne all]) (use listedD(3) [OF l] in simp)
  then show ?thesis by (simp add: pop_deep [OF True])
qed

lemma popOrDive_coherent:
  assumes c: "coherent w"
  shows "coherent (fst (popOrDive w))"
proof (cases "selectedIndex w = Some 0")
  case True
  obtain w1 r where "pop w = (w1, r)" by (cases "pop w")
  with pop_coherent [OF c] True show ?thesis by (simp add: popOrDive_def)
next
  case False
  with dive_coherent [OF c] show ?thesis by (simp add: popOrDive_def)
qed

lemma inspect_coherent:
  assumes c: "coherent w"
  shows "coherent (fst (inspect w))"
  using inspectorForSelectedPart_coherent [OF c] by (simp add: fst_inspect)

lemma open_window_coherent:
  assumes "recorded_in_range i"
  shows "coherent (fst (open_window (InspectorWindow_init i)))"
  unfolding open_window_def
  by (rule update_coherent)
    (simp_all add: InspectorWindow_init_def recorded_settled [OF assms] selection_ok_def)

lemma popupMenu_coherent:
  assumes c: "coherent w"
  shows "coherent (popupMenu w)"
proof (cases "selectedIndex w")
  case None
  with c show ?thesis by (simp add: popupMenu_def)
next
  case (Some n)
  note ne = coherent_nonempty [OF c]
  from coherent_record [OF c Some] show ?thesis
    by (simp add: popupMenu_def Some topInspector_nonempty [OF ne] partNumber_fst)
qed

lemma evalCommand_coherent:
  assumes c: "coherent w"
  shows "coherent (fst (evalCommand ev w))"
proof -
  from evalCommand_frame [of ev w]
  have "coherent (fst (evalCommand ev w)) = coherent w" by (intro coherent_cong) simp_all
  with c show ?thesis by simp
qed

lemma select_entry_coherent:
  assumes c: "coherent w"
  shows "coherent (fst (select_entry k w))"
proof -
  note l = coherentD(1) [OF c]
  let ?v = "if 0 \<le> k \<and> k < int (length (entries (listWidget w)))
        then w\<lparr>listWidget := (listWidget w)\<lparr>selection := [k]\<rparr>\<rparr> else w"
  have "listed ?v"
  proof (cases "0 \<le> k \<and> k < int (length (entries (listWidget w)))")
    case False
    then have "?v = w" by (rule if_not_P)
    with l show ?thesis by simp
  next
    case True
    then have v: "?v = w\<lparr>listWidget := (listWidget w)\<lparr>selection := [k]\<rparr>\<rparr>" by (rule if_P)
    have "listed (w\<lparr>listWidget := (listWidget w)\<lparr>selection := [k]\<rparr>\<rparr>)"
    proof (rule listedI)
      show "inspectors (w\<lparr>listWidget := (listWidget w)\<lparr>selection := [k]\<rparr>\<rparr>) \<noteq> []"
        using listedD(1) [OF l] by simp
      show "list_all settled (inspectors (w\<lparr>listWidget := (listWidget w)\<lparr>selection := [k]\<rparr>\<rparr>))"
        using listedD(2) [OF l] by simp
      show "selection_ok (listWidget (w\<lparr>listWidget := (listWidget w)\<lparr>selection := [k]\<rparr>\<rparr>))"
        using True by (simp add: selection_ok_def)
      fix t assume "title (last (inspectors (w\<lparr>listWidget := (listWidget w)\<lparr>selection := [k]\<rparr>\<rparr>))) = Inr t"
      then have "title (last (inspectors w)) = Inr t" by simp
      from listedD(4,5) [OF l this]
      show "top_title (w\<lparr>listWidget := (listWidget w)\<lparr>selection := [k]\<rparr>\<rparr>) = window_title t
        \<and> entries (listWidget (w\<lparr>listWidget := (listWidget w)\<lparr>selection := [k]\<rparr>\<rparr>))
          = partNames (last (inspectors (w\<lparr>listWidget := (listWidget w)\<lparr>selection := [k]\<rparr>\<rparr>)))"
        by simp
    qed
    with v show ?thesis by simp
  qed
  then have "coherent (fst (listSelectionChanged ?v))" by (rule listSelectionChanged_coherent)
  then show ?thesis by (simp only: select_entry_def)
qed

lemma typed_coherent:
  assumes c: "coherent w"
  shows "coherent (w\<lparr>commandWidget := line\<rparr>)"
proof -
  have "coherent (w\<lparr>commandWidget := line\<rparr>) = coherent w" by (rule coherent_cong) simp_all
  with c show ?thesis by simp
qed

lemma deselected_coherent:
  assumes c: "coherent w"
  shows "coherent (w\<lparr>listWidget := (listWidget w)\<lparr>selection := []\<rparr>\<rparr>)"
proof -
  note l = coherentD(1) [OF c]
  let ?v = "w\<lparr>listWidget := (listWidget w)\<lparr>selection := []\<rparr>\<rparr>"
  have "listed ?v"
  proof (rule listedI)
    show "inspectors ?v \<noteq> []" using listedD(1) [OF l] by simp
    show "list_all settled (inspectors ?v)" using listedD(2) [OF l] by simp
    show "selection_ok (listWidget ?v)" by (simp add: selection_ok_def)
    fix t assume "title (last (inspectors ?v)) = Inr t"
    then have "title (last (inspectors w)) = Inr t" by simp
    from listedD(4,5) [OF l this]
    show "top_title ?v = window_title t
        \<and> entries (listWidget ?v) = partNames (last (inspectors ?v))"
      by simp
  qed
  then show ?thesis by (rule coherentI) (simp_all add: selectedIndex_def)
qed

text \<open>Every state of a window is coherent.\<close>

lemma reachable_coherent: "reachable w \<Longrightarrow> coherent w"
proof (induction rule: reachable.induct)
  case (opened anObject out inspector w r)
  from inspectorFor_recorded [OF opened(1)] have "recorded_in_range inspector" .
  from open_window_coherent [OF this] opened(2) show ?case by simp
next
  case (selected w k w' r)
  from select_entry_coherent [OF selected(3), of k] selected(2) show ?case by simp
next
  case (dived w w' out r)
  from dive_coherent [OF dived(3)] dived(2) show ?case by simp
next
  case (popped w w' r)
  from pop_coherent [OF popped(3)] popped(2) show ?case by simp
next
  case (activated w w' out r)
  from popOrDive_coherent [OF activated(3)] activated(2) show ?case by simp
next
  case (inspected w w' out r)
  from inspect_coherent [OF inspected(3)] inspected(2) show ?case by simp
next
  case (spawned w w' out inspector nw r)
  from inspectorForSelectedPart_inspector [OF spawned(2)] have "recorded_in_range inspector" .
  from open_window_coherent [OF this] spawned(3) show ?case by simp
next
  case (menu_posted w)
  then show ?case by (simp add: popupMenu_coherent)
next
  case (evaluated w ev w' r)
  from evalCommand_coherent [OF evaluated(3), of ev] evaluated(2) show ?case by simp
next
  case (typed w line)
  then show ?case by (simp add: typed_coherent)
next
  case (deselected w)
  then show ?case by (simp add: deselected_coherent)
qed

subsection \<open>A window that cannot dive\<close>

lemma inspectorFor_root: "inspectorFor ex_root = ([], Inr ex_root_inspector)"
proof -
  have "typeName_of ex_root = ''DictType''"
    by (simp add: typeName_of_def type_name_def char_defs ex_root_def)
  then have "initializeInspectorMap (typeName_of ex_root) = Some ''DictionaryInspector''"
    by (simp add: registry_rows)
  from inspectorFor_registered [OF this globals_rows(2)]
  have "inspectorFor ex_root = ([], Inspector_init DictionaryInspector ex_root)" .
  moreover have "Inspector_init DictionaryInspector ex_root = Inr ex_root_inspector"
    by (simp add: init_defs ex_root_inspector_def ex_root_def)
  ultimately show ?thesis by simp
qed

lemma inspectorFor_nested: "inspectorFor ex_nested = ([], Inr ex_nested_inspector)"
proof -
  have "typeName_of ex_nested = ''DictType''"
    by (simp add: typeName_of_def type_name_def char_defs ex_nested_def)
  then have "initializeInspectorMap (typeName_of ex_nested) = Some ''DictionaryInspector''"
    by (simp add: registry_rows)
  from inspectorFor_registered [OF this globals_rows(2)]
  have "inspectorFor ex_nested = ([], Inspector_init DictionaryInspector ex_nested)" .
  moreover have "Inspector_init DictionaryInspector ex_nested = Inr ex_nested_inspector"
    by (simp add: init_defs ex_nested_inspector_def ex_nested_def)
  ultimately show ?thesis by simp
qed


lemma ex_root_open:
  "open_window (InspectorWindow_init ex_root_inspector) = (ex_root_opened, Inr ())"
  by (simp add: open_window_def InspectorWindow_init_def window_defs partNumber_defs Let_def
      ex_root_inspector_def ex_root_opened_def ex_root_def type_name_def char_defs)

lemma ex_root_select: "select_entry 1 ex_root_opened = (ex_root_selected, Inr ())"
  by (simp add: select_entry_def window_defs partNumber_defs Let_def
      ex_root_inspector_def ex_root_opened_def ex_root_selected_def ex_root_def ex_nested_def)

lemma ex_root_part: "partNumber (ex_root_inspector\<lparr>lastPartNumber := 1\<rparr>) 1
    = (ex_root_inspector\<lparr>lastPartNumber := 1\<rparr>, Inr ex_nested)"
  by (simp add: partNumber_defs Let_def ex_root_inspector_def ex_root_def py_index_def)


lemma ex_root_inspectorForSelectedPart:
  "inspectorForSelectedPart ex_root_selected
     = (ex_root_selected, [], Inr (Some ex_nested_inspector))"
  by (simp add: inspectorForSelectedPart_def selectedIndex_def topInspector_def py_index_def
      storeTop_def ex_root_selected_def ex_root_part inspectorFor_nested Let_def)

lemma ex_root_dive_update:
  "update (ex_root_selected\<lparr>inspectors := inspectors ex_root_selected @ [ex_nested_inspector]\<rparr>)
     = (ex_nested_dived, Inr ())"
  by (simp add: window_defs partNumber_defs Let_def ex_root_selected_def ex_nested_dived_def
      ex_nested_inspector_def ex_nested_def type_name_def char_defs)

lemma ex_root_dive: "dive ex_root_selected = (ex_nested_dived, [], Inr ())"
  by (simp add: dive_def ex_root_inspectorForSelectedPart ex_root_dive_update)

lemma ex_nested_select: "select_entry 1 ex_nested_dived = (ex_stuck, Inr ())"
  by (simp add: select_entry_def window_defs partNumber_defs Let_def
      ex_nested_inspector_def ex_nested_dived_def ex_stuck_def ex_nested_def ex_mixed_dict_def)






lemma example_reachable:
  "reachable ex_opened" "reachable ex_window" "reachable ex_dived" "reachable ex_stuck"
proof -
  show o: "reachable ex_opened" using example_inspectors(1) ex_open by (rule reachable.opened)
  then show w: "reachable ex_window" using ex_select by (rule reachable.selected)
  then show "reachable ex_dived" using ex_dive by (rule reachable.dived)
  have "reachable ex_root_opened" using inspectorFor_root ex_root_open by (rule reachable.opened)
  then have "reachable ex_root_selected" using ex_root_select by (rule reachable.selected)
  then have "reachable ex_nested_dived" using ex_root_dive by (rule reachable.dived)
  then show "reachable ex_stuck" using ex_nested_select by (rule reachable.selected)
qed

subsection \<open>What holds in every state\<close>

lemma update_stack_recorded:
  assumes ne: "inspectors w \<noteq> []"
    and k: "recorded_in_range (last (inspectors w))"
  shows "inspectors (fst (update w)) = inspectors w"
proof (cases "title (last (inspectors w))")
  case (Inl e)
  then show ?thesis by (simp add: update_nonempty [OF ne])
next
  case (Inr t)
  let ?k = "lastPartNumber (last (inspectors w))"
  from k have r: "0 \<le> ?k" "?k < int (length (partNames (last (inspectors w))))"
    by (simp_all add: recorded_in_range_def)
  let ?w3 = "w\<lparr>top_title := window_title t,
        listWidget := \<lparr>entries = partNames (last (inspectors w)), selection = [?k]\<rparr>\<rparr>"
  have u3: "update w = listSelectionChanged ?w3"
    by (simp add: update_nonempty [OF ne] Inr lb_select_set_in_range [OF r])
  have ne3: "inspectors ?w3 \<noteq> []" using ne by simp
  have sel: "selectedIndex ?w3 = Some ?k" by (simp add: selectedIndex_def)
  have same: "(last (inspectors w))\<lparr>lastPartNumber := ?k\<rparr> = last (inspectors w)" by simp
  have st: "storeTop ?w3 (last (inspectors ?w3)) = ?w3" by (rule storeTop_same [OF ne3])
  have "inspectors (fst (listSelectionChanged ?w3)) = inspectors ?w3"
    using st
    by (simp add: listSelectionChanged_nonempty [OF ne3] sel Let_def same split: sum.splits)
  then show ?thesis by (simp add: u3)
qed

text \<open>A pop on a deeper stack leaves exactly the stack without its top.\<close>

lemma coherent_pop_stack:
  assumes c: "coherent w" and d: "1 < length (inspectors w)"
  shows "inspectors (fst (pop w)) = butlast (inspectors w)"
proof -
  note l = coherentD(1) [OF c]
  let ?v = "w\<lparr>inspectors := butlast (inspectors w)\<rparr>"
  have ne: "inspectors ?v \<noteq> []" using d by (cases "inspectors w" rule: rev_cases) auto
  have "last (inspectors ?v) \<in> set (butlast (inspectors w))" using ne by simp
  then have "last (inspectors ?v) \<in> set (inspectors w)" by (rule in_set_butlastD)
  with listedD(2) [OF l] have s: "settled (last (inspectors ?v))" by (simp add: list_all_iff)
  have "inspectors (fst (update ?v)) = inspectors ?v"
  proof (cases "title (last (inspectors ?v))")
    case (Inl e)
    then show ?thesis by (simp add: update_nonempty [OF ne])
  next
    case (Inr t)
    then have "titled (last (inspectors ?v))" by (simp add: titled_def)
    with s have "recorded_in_range (last (inspectors ?v))" by (simp add: settled_def)
    then show ?thesis by (rule update_stack_recorded [OF ne])
  qed
  with d show ?thesis by (simp add: pop_deep)
qed












subsection \<open>The navigation stack\<close>

text \<open>
  Claim C6. The stack has one inspector when the window is constructed, and it is not
  empty in any state of the window. Any handler keeps a stack that is not empty so, also
  when it raises: a dive, a pop, an inspect, a selection change, an activation of an
  entry, a refresh, an evaluation. A pop on a stack of depth 1 changes nothing; a pop on a
  deeper stack removes the top inspector and leaves the inspectors below it (the refresh
  that follows records the index it selects in the new top inspector, which in every
  state of a window is the index that inspector already holds, so that there the stack
  after the pop is the stack without its top).
\<close>

theorem stack_never_empty:
  "inspectors (InspectorWindow_init i) \<noteq> []
   \<and> (reachable w \<longrightarrow> inspectors w \<noteq> [])
   \<and> (reachable w \<and> 1 < length (inspectors w) \<longrightarrow>
        inspectors (fst (pop w)) = butlast (inspectors w))
   \<and> (inspectors w \<noteq> [] \<longrightarrow>
        inspectors (fst (dive w)) \<noteq> [] \<and> inspectors (fst (pop w)) \<noteq> []
        \<and> inspectors (fst (inspect w)) \<noteq> [] \<and> inspectors (fst (select_entry k w)) \<noteq> []
        \<and> inspectors (fst (popOrDive w)) \<noteq> [] \<and> inspectors (fst (update w)) \<noteq> []
        \<and> inspectors (fst (evalCommand ev w)) \<noteq> [])
   \<and> (length (inspectors w) = 1 \<longrightarrow> pop w = (w, Inr ()))
   \<and> (1 < length (inspectors w) \<longrightarrow>
        length (inspectors (fst (pop w))) = length (inspectors w) - 1
        \<and> same_inspectors (inspectors (fst (pop w))) (butlast (inspectors w))
        \<and> butlast (inspectors (fst (pop w))) = butlast (butlast (inspectors w)))"
proof (intro conjI impI)
  show "inspectors (InspectorWindow_init i) \<noteq> []" by (simp add: InspectorWindow_init_def)
next
  assume "reachable w"
  then have "coherent w" by (rule reachable_coherent)
  then show "inspectors w \<noteq> []" by (rule coherent_nonempty)
next
  assume a: "reachable w \<and> 1 < length (inspectors w)"
  then have "coherent w" by (simp add: reachable_coherent)
  from coherent_pop_stack [OF this] a
  show "inspectors (fst (pop w)) = butlast (inspectors w)" by simp
next
  assume "inspectors w \<noteq> []"
  then have l: "0 < length (inspectors w)" by simp
  from l length_dive [of w] show "inspectors (fst (dive w)) \<noteq> []" by auto
  from l length_pop [of w] show "inspectors (fst (pop w)) \<noteq> []"
    by (cases "1 < length (inspectors w)") auto
  from l length_inspect [of w] show "inspectors (fst (inspect w)) \<noteq> []" by auto
  from l length_select_entry [of k w] show "inspectors (fst (select_entry k w)) \<noteq> []" by auto
  from l length_popOrDive [of w] show "inspectors (fst (popOrDive w)) \<noteq> []" by auto
  from l length_update [of w] show "inspectors (fst (update w)) \<noteq> []" by auto
  from l evalCommand_frame [of ev w] show "inspectors (fst (evalCommand ev w)) \<noteq> []" by auto
next
  assume "length (inspectors w) = 1"
  then show "pop w = (w, Inr ())" by (simp add: pop_shallow)
next
  assume "1 < length (inspectors w)"
  then show "length (inspectors (fst (pop w))) = length (inspectors w) - 1"
    by (simp add: length_pop)
next
  assume "1 < length (inspectors w)"
  then show "same_inspectors (inspectors (fst (pop w))) (butlast (inspectors w))"
    by (rule same_inspectors_pop)
next
  assume d: "1 < length (inspectors w)"
  from butlast_update_stack [of "w\<lparr>inspectors := butlast (inspectors w)\<rparr>"]
  show "butlast (inspectors (fst (pop w))) = butlast (butlast (inspectors w))"
    by (simp add: pop_deep [OF d])
qed

theorem stack_never_empty_witness:
  "inspectors (InspectorWindow_init ex_dict_inspector) \<noteq> []
   \<and> reachable ex_dived \<and> inspectors ex_dived \<noteq> [] \<and> length (inspectors ex_dived) = 2
   \<and> inspectors (fst (pop ex_dived)) = butlast (inspectors ex_dived)
   \<and> inspectors ex_window \<noteq> []
   \<and> inspectors (fst (dive ex_window)) \<noteq> [] \<and> inspectors (fst (pop ex_window)) \<noteq> []
   \<and> inspectors (fst (inspect ex_window)) \<noteq> []
   \<and> inspectors (fst (select_entry 3 ex_window)) \<noteq> []
   \<and> length (inspectors ex_window) = 1 \<and> pop ex_window = (ex_window, Inr ())
   \<and> length (inspectors (fst (pop ex_dived))) = 1
   \<and> pop ex_dived = (ex_window, Inr ())
   \<and> same_inspectors (inspectors (fst (pop ex_dived))) (butlast (inspectors ex_dived))"
proof -
  note a = stack_never_empty [of ex_dict_inspector ex_window 3 ex_eval]
  note b = stack_never_empty [of ex_dict_inspector ex_dived 3 ex_eval]
  have ne: "inspectors ex_window \<noteq> []" and l1: "length (inspectors ex_window) = 1"
    and l2: "length (inspectors ex_dived) = 2" "1 < length (inspectors ex_dived)"
    by (simp_all add: example_stacks)
  note p = ex_pop
  note r = example_reachable(3)
  from a ne l1 have "inspectors (InspectorWindow_init ex_dict_inspector) \<noteq> []"
    "inspectors (fst (dive ex_window)) \<noteq> []" "inspectors (fst (pop ex_window)) \<noteq> []"
    "inspectors (fst (inspect ex_window)) \<noteq> []"
    "inspectors (fst (select_entry 3 ex_window)) \<noteq> []"
    "pop ex_window = (ex_window, Inr ())"
    by blast+
  moreover from b l2 have "length (inspectors (fst (pop ex_dived))) = 1"
    "same_inspectors (inspectors (fst (pop ex_dived))) (butlast (inspectors ex_dived))"
    by simp_all
  moreover from b r l2 have "inspectors ex_dived \<noteq> []"
    "inspectors (fst (pop ex_dived)) = butlast (inspectors ex_dived)"
    by blast+
  ultimately show ?thesis using ne l1 l2 p r by simp
qed

text \<open>
  Claim C8. Activating an entry while index 0 is the selected index performs
  \<^verbatim>\<open>pop\<close>, so the stack does not grow and no inspector is pushed; with any other
  selection (another index, or none) it performs \<^verbatim>\<open>dive\<close>.
\<close>

theorem popOrDive_choice:
  "(selectedIndex w = Some 0 \<longrightarrow>
      popOrDive w = (fst (pop w), [], snd (pop w))
      \<and> length (inspectors (fst (popOrDive w))) \<le> length (inspectors w)
      \<and> (length (inspectors w) \<le> 1 \<longrightarrow> fst (popOrDive w) = w))
   \<and> (selectedIndex w \<noteq> Some 0 \<longrightarrow> popOrDive w = dive w)"
proof (intro conjI impI)
  assume z: "selectedIndex w = Some 0"
  then show p: "popOrDive w = (fst (pop w), [], snd (pop w))"
    by (simp add: popOrDive_def split: prod.splits)
  then show "length (inspectors (fst (popOrDive w))) \<le> length (inspectors w)"
    by (simp add: length_pop)
  assume "length (inspectors w) \<le> 1"
  with p show "fst (popOrDive w) = w" by (simp add: pop_shallow)
next
  assume "selectedIndex w \<noteq> Some 0"
  then show "popOrDive w = dive w" by (simp add: popOrDive_def)
qed

theorem popOrDive_choice_witness:
  "selectedIndex ex_dived = Some 0 \<and> popOrDive ex_dived = (ex_window, [], Inr ())
   \<and> length (inspectors (fst (popOrDive ex_dived))) \<le> length (inspectors ex_dived)
   \<and> selectedIndex ex_opened = Some 0 \<and> length (inspectors ex_opened) \<le> 1
   \<and> fst (popOrDive ex_opened) = ex_opened
   \<and> selectedIndex ex_window \<noteq> Some 0 \<and> popOrDive ex_window = (ex_dived, [], Inr ())"
proof -
  have s: "selectedIndex ex_dived = Some 0" "selectedIndex ex_opened = Some 0"
    "selectedIndex ex_window \<noteq> Some 0" "length (inspectors ex_opened) \<le> 1"
    by (simp_all add: selectedIndex_def ex_dived_def ex_opened_def ex_window_def)
  note p = ex_pop
  from popOrDive_choice [of ex_dived] s(1) p
  have "popOrDive ex_dived = (ex_window, [], Inr ())"
    "length (inspectors (fst (popOrDive ex_dived))) \<le> length (inspectors ex_dived)"
    by (simp_all add: example_stacks)
  moreover from popOrDive_choice [of ex_opened] s(2,4)
  have "fst (popOrDive ex_opened) = ex_opened" by blast
  moreover from popOrDive_choice [of ex_window] s(3)
  have "popOrDive ex_window = (ex_dived, [], Inr ())" by (simp add: ex_dive)
  ultimately show ?thesis using s by simp
qed



subsection \<open>A dive and the pop after it\<close>




subsection \<open>Errors of an evaluation\<close>

text \<open>
  Claim C5, as the specification states it, has the errors of an evaluation caught and
  shown in the transcript. \<^verbatim>\<open>evalCommand\<close> has no handler: for the command line
  \<^verbatim>\<open>1/0\<close> it raises ZeroDivisionError to its caller, and the transcript stays as it was.
\<close>

theorem evalCommand_raises_counterexample:
  "evalCommand ex_eval (ex_window\<lparr>commandWidget := ''>>> 1/0'' @ [CHR 0x0A]\<rparr>)
     = (ex_window\<lparr>commandWidget := ''>>> 1/0'' @ [CHR 0x0A]\<rparr>, Inl ZeroDivisionError)"
proof -
  let ?w = "ex_window\<lparr>commandWidget := ''>>> 1/0'' @ [CHR 0x0A]\<rparr>"
  have c: "last_command (commandWidget ?w) = Some ''1/0''" "''1/0'' \<noteq> []" by simp_all
  have ne: "inspectors ?w \<noteq> []" by (simp add: example_stacks)
  show ?thesis
    unfolding evalCommand_cases [OF c ne]
    by (simp add: example_stacks ex_selectedPart ex_eval_def)
qed

text \<open>
  Claim C5, amended. An exception raised while a command line is evaluated is not caught:
  \<^verbatim>\<open>evalCommand\<close> raises it to its caller and appends nothing to the transcript.
  Whenever \<^verbatim>\<open>evalCommand\<close> raises, the window is exactly as it was; and no
  evaluation, failed or not, changes the stack of inspectors, the title, the list with its
  selection or the text pane.
\<close>

theorem evalCommand_propagates:
  "(last_command (commandWidget w) = Some command \<and> command \<noteq> [] \<and> inspectors w \<noteq> []
      \<and> snd (selectedPart (last (inspectors w))) = Inr this
      \<and> ev command this (object (last (inspectors w))) = Inl e
      \<longrightarrow> evalCommand ev w = (w, Inl e))
   \<and> (snd (evalCommand ev w) = Inl e \<longrightarrow> fst (evalCommand ev w) = w)
   \<and> inspectors (fst (evalCommand ev w)) = inspectors w
   \<and> top_title (fst (evalCommand ev w)) = top_title w
   \<and> listWidget (fst (evalCommand ev w)) = listWidget w
   \<and> textWidget (fst (evalCommand ev w)) = textWidget w"
proof (intro conjI impI)
  assume "last_command (commandWidget w) = Some command \<and> command \<noteq> [] \<and> inspectors w \<noteq> []
      \<and> snd (selectedPart (last (inspectors w))) = Inr this
      \<and> ev command this (object (last (inspectors w))) = Inl e"
  then show "evalCommand ev w = (w, Inl e)"
    by (simp add: evalCommand_cases)
next
  assume "snd (evalCommand ev w) = Inl e"
  then show "fst (evalCommand ev w) = w" by (rule evalCommand_error)
qed (simp_all add: evalCommand_frame)

theorem evalCommand_propagates_witness:
  "evalCommand ex_eval (ex_window\<lparr>commandWidget := ''>>> x'' @ [CHR 0x0A]\<rparr>)
     = (ex_window\<lparr>commandWidget := ''>>> x'' @ [CHR 0x0A]\<rparr>, Inl NameError)
   \<and> fst (evalCommand ex_eval (ex_window\<lparr>commandWidget := ''>>> x'' @ [CHR 0x0A]\<rparr>))
     = ex_window\<lparr>commandWidget := ''>>> x'' @ [CHR 0x0A]\<rparr>
   \<and> evalCommand ex_eval (ex_window\<lparr>commandWidget := ''>>> this'' @ [CHR 0x0A]\<rparr>)
     = (ex_window\<lparr>commandWidget := ''>>> this'' @ [CHR 0x0A] @ ''1'' @ [CHR 0x0A] @ ''>>> ''\<rparr>,
        Inr ())"
proof -
  let ?w = "ex_window\<lparr>commandWidget := ''>>> x'' @ [CHR 0x0A]\<rparr>"
  have h: "last_command (commandWidget ?w) = Some ''x'' \<and> ''x'' \<noteq> [] \<and> inspectors ?w \<noteq> []
      \<and> snd (selectedPart (last (inspectors ?w))) = Inr (py_int 1)
      \<and> ex_eval ''x'' (py_int 1) (object (last (inspectors ?w))) = Inl NameError"
    by (simp add: example_stacks ex_selectedPart ex_eval_def)
  note t = evalCommand_propagates [of ?w "''x''" "py_int 1" ex_eval NameError]
  from t h have 1: "evalCommand ex_eval ?w = (?w, Inl NameError)" by blast
  then have "snd (evalCommand ex_eval ?w) = Inl NameError" by simp
  with t have 2: "fst (evalCommand ex_eval ?w) = ?w" by blast
  let ?v = "ex_window\<lparr>commandWidget := ''>>> this'' @ [CHR 0x0A]\<rparr>"
  have c: "last_command (commandWidget ?v) = Some ''this''" "''this'' \<noteq> []" by simp_all
  have ne: "inspectors ?v \<noteq> []" by (simp add: example_stacks)
  have 3: "evalCommand ex_eval ?v
     = (ex_window\<lparr>commandWidget := ''>>> this'' @ [CHR 0x0A] @ ''1'' @ [CHR 0x0A] @ ''>>> ''\<rparr>,
        Inr ())"
    unfolding evalCommand_cases [OF c ne]
    by (simp add: example_stacks ex_selectedPart ex_eval_def py_int_def
        str_int_def str_nat_digit)
  from 1 2 3 show ?thesis by simp
qed

end
